theory Spec2Isabelle
  imports Complex_Main "HOL-Library.Word"
begin

section \<open>Python values and errors\<close>

text \<open>
  Exceptions of the Python source are values: every function that can raise returns
  \<open>py_error + 'a\<close>, with \<open>Inl\<close> for the exception.
\<close>

datatype py_error =
    ZeroDivisionError | IndexError | ValueError | AttributeError | TypeError | OverflowError

text \<open>
  Python's \<open>int(x)\<close> on a float truncates towards zero. Floats are read as the real
  numbers they denote.
\<close>

definition py_int :: "real \<Rightarrow> int" where
  "py_int x = (if 0 \<le> x then \<lfloor>x\<rfloor> else \<lceil>x\<rceil>)"

section \<open>Floating-point numbers\<close>

text \<open>
  A Python float is an IEEE 754 binary64 number; a finite one is read as the real number
  it denotes. Every arithmetic operation returns the double nearest to the exact result,
  ties going to the even significand: \<open>double_round\<close>, with a significand of 53 bits
  and the exponent of the subnormal numbers as the least one. A result whose rounding
  reaches \<open>2 ^ 1024\<close> is infinite instead.
\<close>

definition round_half_even :: "real \<Rightarrow> int" where
  "round_half_even y =
     (let n = \<lfloor>y\<rfloor>; d = y - of_int n
      in if d < 1 / 2 then n else if 1 / 2 < d then n + 1 else if even n then n else n + 1)"

definition double_exponent :: "real \<Rightarrow> int" where
  "double_exponent x = max \<lfloor>log 2 \<bar>x\<bar>\<rfloor> (- 1022)"

definition double_ulp :: "real \<Rightarrow> real" where
  "double_ulp x = 2 powr of_int (double_exponent x - 52)"

definition double_round :: "real \<Rightarrow> real" where
  "double_round x =
     (if x = 0 then 0 else of_int (round_half_even (x / double_ulp x)) * double_ulp x)"

definition double_overflow :: "real \<Rightarrow> bool" where
  "double_overflow x \<longleftrightarrow> 2 ^ 1024 \<le> \<bar>double_round x\<bar>"

section \<open>Parameter resolution (\<open>MegaMicro.run_setargs\<close>, core\_base.py)\<close>

text \<open>
  \<^verbatim>\<open>self._clockdiv = max( int( 500000 / sampling_frequency ) - 1, 9 )\<close>
  \<^verbatim>\<open>self._sampling_frequency = 500000 / ( self._clockdiv + 1 )\<close>
  The requested frequency is a Python integer or a finite float. Each division gives
  the double nearest to the exact quotient. The first one raises
  \<open>ZeroDivisionError\<close> on a request of 0, and \<open>int\<close> raises \<open>OverflowError\<close> on
  an infinite quotient.
\<close>

definition run_setargs_clock :: "real \<Rightarrow> py_error + (int \<times> real)" where
  "run_setargs_clock sampling_frequency =
     (if sampling_frequency = 0 then Inl ZeroDivisionError
      else if double_overflow (500000 / sampling_frequency) then Inl OverflowError
      else let clockdiv = max (py_int (double_round (500000 / sampling_frequency)) - 1) 9
           in Inr (clockdiv, double_round (500000 / (real_of_int clockdiv + 1))))"

text \<open>
  \<^verbatim>\<open>self._transfers_count = int( ( self._duration * self._sampling_frequency ) // self._buffer_length )\<close>
  The product is the double nearest to the exact one. Python's \<open>//\<close> on floats is the
  floor of the exact quotient of its operands and raises on a zero divisor; on an
  infinite product it gives a NaN, which \<open>int\<close> refuses with \<open>ValueError\<close>.
\<close>

definition run_setargs_transfers_count :: "real \<Rightarrow> real \<Rightarrow> nat \<Rightarrow> py_error + int" where
  "run_setargs_transfers_count duration sampling_frequency buffer_length =
     (if buffer_length = 0 then Inl ZeroDivisionError
      else if double_overflow (duration * sampling_frequency) then Inl ValueError
      else Inr \<lfloor>double_round (duration * sampling_frequency) / real buffer_length\<rfloor>)"

section \<open>Arrays\<close>

text \<open>
  A frame is a two-dimensional \<open>int32\<close> array, held as the list of its rows. The
  number of columns is carried by the parameters of the session, as in the source,
  where every shape derives from \<open>_channels_number\<close> and \<open>_buffer_length\<close>.
\<close>

type_synonym frame = "32 word list list"

text \<open>
  \<^verbatim>\<open>np.reshape( data, ( buffer_length, channels_number ) ).T\<close>: row \<open>c\<close> of the
  result holds the words \<open>c\<close>, \<open>c + channels\<close>, \<open>c + 2 * channels\<close>, ... of the transfer.
\<close>

definition reshape_T :: "32 word list \<Rightarrow> nat \<Rightarrow> nat \<Rightarrow> frame" where
  "reshape_T data buffer_length channels_number =
     map (\<lambda>c. map (\<lambda>k. data ! (k * channels_number + c)) [0..<buffer_length])
       [0..<channels_number]"

text \<open>Python slice bounds \<open>a:b\<close> on a length \<open>n\<close> (step 1): negative bounds count
  from the end, and both are clipped to the length.\<close>

definition slice_bounds :: "nat \<Rightarrow> int \<Rightarrow> int \<Rightarrow> nat \<times> nat" where
  "slice_bounds n a b =
     (let norm = (\<lambda>i. if i < 0 then nat (max (i + int n) 0) else min (nat i) n);
          st = norm a
      in (st, max st (norm b)))"

definition py_slice :: "'a list \<Rightarrow> int \<Rightarrow> int \<Rightarrow> 'a list" where
  "py_slice xs a b = (case slice_bounds (length xs) a b of (st, sp) \<Rightarrow> take (sp - st) (drop st xs))"

text \<open>
  \<^verbatim>\<open>dst[:, a:b] = src\<close> for \<open>dst\<close> of \<open>n\<close> columns and \<open>src\<close> of \<open>k\<close> columns.
  numpy broadcasts a source of one row or one column and raises \<open>ValueError\<close> on any
  other shape mismatch.
\<close>

definition np_set_cols :: "nat \<Rightarrow> frame \<Rightarrow> int \<Rightarrow> int \<Rightarrow> nat \<Rightarrow> frame \<Rightarrow> py_error + frame" where
  "np_set_cols n dst a b k src =
     (case slice_bounds n a b of (st, sp) \<Rightarrow>
        let w = sp - st in
        if (k \<noteq> w \<and> k \<noteq> 1) \<or> (length src \<noteq> length dst \<and> length src \<noteq> 1) then Inl ValueError
        else Inr (map (\<lambda>i.
               let srow = (if length src = 1 then src ! 0 else src ! i);
                   vals = (if k = w then srow else replicate w (srow ! 0))
               in take st (dst ! i) @ vals @ drop sp (dst ! i))
             [0..<length dst]))"

section \<open>The H5 recorder (\<open>h5_init\<close>, \<open>h5_init_file\<close>, \<open>h5_write_mems\<close>, core\_base.py)\<close>

record datetime =
  year :: nat
  month :: nat
  day :: nat
  hour :: nat
  minute :: nat
  second :: nat

text \<open>Decimal digits of a number, as \<open>str\<close> and the format \<open>{x}\<close> give them.\<close>

fun str_nat :: "nat \<Rightarrow> string" where
  "str_nat n = (if n < 10 then [''0123456789'' ! n]
                else str_nat (n div 10) @ [''0123456789'' ! (n mod 10)])"

declare str_nat.simps [simp del]

text \<open>The format \<open>{x:02}\<close>: at least two characters, padded with zeros on the left.\<close>

definition fmt02 :: "nat \<Rightarrow> string" where
  "fmt02 n = (let s = str_nat n in replicate (2 - length s) (CHR ''0'') @ s)"

text \<open>
  The basename of the file that \<open>h5_init_file\<close> creates:
  \<^verbatim>\<open>'mu5h-' + f"{date.year}{date.month:02}{date.day:02}-{date.hour:02}{date.minute:02}{date.second:02}" + '.h5'\<close>
\<close>

definition h5_filename :: "datetime \<Rightarrow> string" where
  "h5_filename date =
     ''mu5h-'' @ (str_nat (year date) @ fmt02 (month date) @ fmt02 (day date) @ ''-''
       @ fmt02 (hour date) @ fmt02 (minute date) @ fmt02 (second date)) @ ''.h5''"

text \<open>
  A file: its name, the root-group attributes that change (\<open>dataset_number\<close>,
  \<open>duration\<close>) or that the recorder reads back (\<open>dataset_duration\<close>,
  \<open>dataset_length\<close>), and the dataset groups, each named by the decimal digits of an
  index and holding the attribute \<open>ts\<close> and the dataset \<open>sig\<close>.
\<close>

record h5_group =
  g_index :: nat
  g_ts :: real
  g_sig :: frame

record h5_file =
  f_name :: string
  f_dataset_number :: nat
  f_dataset_duration :: real
  f_dataset_length :: nat
  f_duration :: real
  f_groups :: "h5_group list"

text \<open>
  The recorder's share of the \<open>MegaMicro\<close> object. \<open>h5_files\<close> lists the files created
  so far, in creation order; the last one is \<open>_h5_current_file\<close>.
\<close>

record h5_recorder =
  h5_dataset_duration :: real
  h5_file_duration :: real
  h5_dataset_number :: int
  h5_dataset_length :: nat
  h5_buffer :: frame
  h5_buffer_index :: nat
  h5_timestamp :: real
  h5_dataset_index :: nat
  h5_files :: "h5_file list"

text \<open>The recorder attributes of the class, before any \<open>h5_init\<close>.\<close>

definition h5_class_defaults :: h5_recorder where
  "h5_class_defaults =
     \<lparr>h5_dataset_duration = 1, h5_file_duration = 900, h5_dataset_number = 900,
      h5_dataset_length = 50000, h5_buffer = [], h5_buffer_index = 0, h5_timestamp = 0,
      h5_dataset_index = 0, h5_files = []\<rparr>"

definition h5_init_file :: "datetime \<Rightarrow> h5_recorder \<Rightarrow> h5_recorder" where
  "h5_init_file date h =
     h\<lparr>h5_files := h5_files h @
          [\<lparr>f_name = h5_filename date, f_dataset_number = 0,
            f_dataset_duration = h5_dataset_duration h,
            f_dataset_length = h5_dataset_length h, f_duration = 0, f_groups = []\<rparr>],
       h5_dataset_index := 0\<rparr>"


text \<open>
  The commit of the cache as group \<open>str(_h5_dataset_index)\<close> of the current file, with
  the update of the root attributes. \<open>create_group\<close> raises \<open>ValueError\<close> on a name
  that exists; without a current file the attribute access raises.
\<close>

definition h5_commit :: "h5_recorder \<Rightarrow> py_error + h5_recorder" where
  "h5_commit h =
     (if h5_files h = [] then Inl AttributeError
      else let f = last (h5_files h) in
        if h5_dataset_index h \<in> g_index ` set (f_groups f) then Inl ValueError
        else let idx = h5_dataset_index h + 1 in
          Inr (h\<lparr>h5_dataset_index := idx,
                 h5_files := butlast (h5_files h) @
                   [f\<lparr>f_groups := f_groups f @
                         [\<lparr>g_index = h5_dataset_index h, g_ts = h5_timestamp h,
                           g_sig = h5_buffer h\<rparr>],
                      f_dataset_number := idx,
                      f_duration := real idx * h5_dataset_duration h\<rparr>]\<rparr>))"

text \<open>
  \<open>h5_write_mems( signal, timestamp )\<close>, for a signal of \<open>buffer_length\<close> columns;
  \<open>date\<close> is what \<open>datetime.now()\<close> reads if a file is created. The result is the
  recorder as the call leaves it and the exception, if one is raised.
\<close>

definition h5_write_mems ::
    "nat \<Rightarrow> real \<Rightarrow> h5_recorder \<Rightarrow> frame \<Rightarrow> real \<Rightarrow> datetime \<Rightarrow> h5_recorder \<times> py_error option" where
  "h5_write_mems buffer_length sampling_frequency h signal timestamp date =
     (let bi = h5_buffer_index h; dl = h5_dataset_length h in
      if bi + buffer_length < dl then
        let h1 = (if bi = 0 then h\<lparr>h5_timestamp := timestamp\<rparr> else h) in
        case np_set_cols dl (h5_buffer h1) (int bi) (int bi + int buffer_length)
               buffer_length signal of
          Inl e \<Rightarrow> (h1, Some e)
        | Inr b \<Rightarrow> (h1\<lparr>h5_buffer := b, h5_buffer_index := bi + buffer_length\<rparr>, None)
      else
        let transf_samples_number = int dl - int bi in
        case np_set_cols dl (h5_buffer h) (int bi) (int bi + int dl)
               (snd (slice_bounds buffer_length 0 transf_samples_number))
               (map (\<lambda>r. py_slice r 0 transf_samples_number) signal) of
          Inl e \<Rightarrow> (h, Some e)
        | Inr b \<Rightarrow>
            let h1 = h\<lparr>h5_buffer := b\<rparr>;
                h2 = (if h5_dataset_number h1 \<le> int (h5_dataset_index h1)
                      then h5_init_file date h1 else h1)
            in case h5_commit h2 of
                 Inl e \<Rightarrow> (h2, Some e)
               | Inr h3 \<Rightarrow>
                   (case slice_bounds buffer_length transf_samples_number (int buffer_length) of
                      (st, sp) \<Rightarrow>
                        case np_set_cols dl (h5_buffer h3) 0
                               (int buffer_length - transf_samples_number) (sp - st)
                               (map (\<lambda>r. py_slice r transf_samples_number (int buffer_length)) signal) of
                          Inl e \<Rightarrow> (h3, Some e)
                        | Inr b' \<Rightarrow>
                            let h4 = h3\<lparr>h5_buffer := b',
                                  h5_buffer_index := nat (int buffer_length - transf_samples_number)\<rparr>
                            in if sampling_frequency = 0 then (h4, Some ZeroDivisionError)
                               else (h4\<lparr>h5_timestamp := timestamp
                                       + real_of_int transf_samples_number / sampling_frequency\<rparr>,
                                     None)))"

section \<open>The transfer engine (\<open>processRun\<close>, \<open>transfer_loop\<close>, core\_base.py)\<close>

datatype transfer_status =
    TRANSFER_COMPLETED | TRANSFER_CANCELLED | TRANSFER_NO_DEVICE | TRANSFER_ERROR
  | TRANSFER_TIMED_OUT | TRANSFER_STALL | TRANSFER_OVERFLOW | TRANSFER_OTHER

text \<open>
  A completed transfer as the callback sees it: its identifier (\<open>getUserData\<close>), its
  status, the words of \<open>getBuffer()[:getActualLength()]\<close>, whether a later
  \<open>submit()\<close> of it raises, and the readings of \<open>time.time()\<close> and
  \<open>datetime.now()\<close> during the callback. The device delivers whole 32-bit words.
\<close>

record transfer =
  t_id :: nat
  t_status :: transfer_status
  t_data :: "32 word list"
  t_submit_raises :: bool
  t_now :: real
  t_date :: datetime

text \<open>What a call of the user callback does: it returns or it raises.\<close>

datatype callback_result = Returns | RaisesKeyboardInterrupt | RaisesException

text \<open>The attributes that \<open>run_setargs\<close> sets and the engine only reads.\<close>

record mm_params =
  sampling_frequency :: real
  buffer_length :: nat
  buffers_number :: nat
  buffer_duration :: real
  channels_number :: nat
  counter :: bool
  counter_skip :: bool
  start_trig :: bool
  transfers_count :: int
  queue_size :: int
  callback_fn :: "(frame \<Rightarrow> callback_result) option"
  h5_recording :: bool

definition buffer_words_length :: "mm_params \<Rightarrow> nat" where
  "buffer_words_length p = channels_number p * buffer_length p"

text \<open>
  The attributes that the engine writes, with the submission flag of every transfer of
  \<open>transfer_list\<close>, the number of FX3 resets sent, and the frames handed downstream
  (to the recorder, the callback or the queue), in order.
\<close>

record mm_state =
  recording :: bool
  restart_request :: bool
  restart_attempt :: nat
  counter_state :: int
  previous_counter_state :: int
  transfer_index :: int
  signal_q :: "frame list"
  h5 :: h5_recorder
  submitted :: "bool list"
  fx3_resets :: nat
  downstream :: "frame list"

definition DEFAULT_MAX_RETRY_ATTEMPT :: nat where
  "DEFAULT_MAX_RETRY_ATTEMPT = 5"

text \<open>
  \<^verbatim>\<open>if( self._recording ): try: transfer.submit() except Exception: self._recording = False\<close>
\<close>

definition resubmit :: "transfer \<Rightarrow> mm_state \<Rightarrow> mm_state" where
  "resubmit tr s =
     (if recording s then
        (if t_submit_raises tr then s\<lparr>recording := False\<rparr>
         else s\<lparr>submitted := (submitted s)[t_id tr := True]\<rparr>)
      else s)"

text \<open>
  \<^verbatim>\<open>ctrl_buffer_length = data[self._buffer_words_length-self._channels_number] - data[0] + 1\<close>
  The difference of the two \<open>int32\<close> scalars wraps; adding the Python integer 1 widens it.
\<close>

definition ctrl_buffer_length :: "mm_params \<Rightarrow> 32 word list \<Rightarrow> int" where
  "ctrl_buffer_length p data =
     sint (data ! (buffer_words_length p - channels_number p) - data ! 0) + 1"

text \<open>The queue branch: a bounded, full queue loses its oldest frame first.\<close>

definition queue_frame :: "mm_params \<Rightarrow> frame \<Rightarrow> mm_state \<Rightarrow> mm_state" where
  "queue_frame p data s =
     (let s1 = (if queue_size p > 0 \<and> int (length (signal_q s)) \<ge> queue_size p
                then s\<lparr>signal_q := tl (signal_q s)\<rparr> else s)
      in s1\<lparr>signal_q := signal_q s1 @ [data]\<rparr>)"

text \<open>
  The frame that \<open>processRun\<close> builds from the words of a transfer: reshaped,
  transposed to channels by samples, without its first row if the counter is skipped.
\<close>

definition emitted_frame :: "mm_params \<Rightarrow> transfer \<Rightarrow> frame" where
  "emitted_frame p tr =
     (let data = reshape_T (t_data tr) (buffer_length p) (channels_number p)
      in if counter p \<and> counter_skip p then drop 1 data else data)"

text \<open>
  The hand-over of the frame: to the recorder if recording to H5 is on, then to the user
  callback, or to the queue if there is none. A failure of the recorder or of the
  callback clears the recording flag.
\<close>

definition deliver :: "mm_params \<Rightarrow> transfer \<Rightarrow> mm_state \<Rightarrow> mm_state" where
  "deliver p tr s =
     (let transfer_timestamp = t_now tr - buffer_duration p;
          data = emitted_frame p tr;
          s1 = s\<lparr>downstream := downstream s @ [data]\<rparr>;
          s2 = (if h5_recording p then
                  (case h5_write_mems (buffer_length p) (sampling_frequency p) (h5 s1)
                          data transfer_timestamp (t_date tr) of
                     (h, None) \<Rightarrow> s1\<lparr>h5 := h\<rparr>
                   | (h, Some e) \<Rightarrow> s1\<lparr>h5 := h, recording := False\<rparr>)
                else s1)
      in case callback_fn p of
           Some f \<Rightarrow> (case f data of Returns \<Rightarrow> s2 | _ \<Rightarrow> s2\<lparr>recording := False\<rparr>)
         | None \<Rightarrow> queue_frame p data s2)"

text \<open>
  The second half of \<open>processRun\<close>, from the reshape on: the frame is handed over,
  the transfer is submitted again and the transfer count is checked.
\<close>

definition dispatch :: "mm_params \<Rightarrow> transfer \<Rightarrow> mm_state \<Rightarrow> mm_state" where
  "dispatch p tr s =
     (let s4 = resubmit tr (deliver p tr s);
          s5 = s4\<lparr>transfer_index := transfer_index s4 + 1\<rparr>
      in if transfers_count p \<noteq> 0 \<and> transfer_index s5 > transfers_count p
         then s5\<lparr>recording := False\<rparr> else s5)"

text \<open>
  \<open>processRun\<close>. Reading \<open>data[0]\<close> of an empty array raises \<open>IndexError\<close>.
\<close>

definition processRun :: "mm_params \<Rightarrow> mm_state \<Rightarrow> transfer \<Rightarrow> py_error + mm_state" where
  "processRun p s tr =
     (if restart_request s then Inr s
      else if t_status tr \<noteq> TRANSFER_COMPLETED then
        (if t_status tr = TRANSFER_TIMED_OUT \<and> start_trig p then Inr (resubmit tr s)
         else Inr (s\<lparr>recording := False\<rparr>))
      else if length (t_data tr) \<noteq> buffer_words_length p then Inr (resubmit tr s)
      else if counter p then
        (if buffer_words_length p = 0 then Inl IndexError
         else if ctrl_buffer_length p (t_data tr) \<noteq> int (buffer_length p)
         then Inr (s\<lparr>restart_request := True\<rparr>)
         else Inr (dispatch p tr
                (s\<lparr>previous_counter_state := counter_state s,
                   counter_state := sint (t_data tr ! (buffer_words_length p - channels_number p)),
                   restart_attempt := 0\<rparr>)))
      else Inr (dispatch p tr s))"

text \<open>
  What the event pump \<open>context.handleEvents()\<close> can bring: the completion of a
  submitted transfer, whose callback then runs, or an interruption (a keyboard
  interrupt, or \<open>stop()\<close> called from the controlling thread), which clears the
  recording flag. An exception that leaves the callback clears it too.
\<close>

datatype event = Completion transfer | Interrupt

definition handleEvents :: "mm_params \<Rightarrow> mm_state \<Rightarrow> event \<Rightarrow> mm_state" where
  "handleEvents p s ev =
     (case ev of
        Interrupt \<Rightarrow> s\<lparr>recording := False\<rparr>
      | Completion tr \<Rightarrow>
          if t_id tr < length (submitted s) \<and> submitted s ! t_id tr then
            (let s0 = s\<lparr>submitted := (submitted s)[t_id tr := False]\<rparr> in
             case processRun p s0 tr of
               Inl e \<Rightarrow> s0\<lparr>recording := False\<rparr>
             | Inr s' \<Rightarrow> s')
          else s)"

text \<open>
  The body of \<open>while self._recording\<close> once no transfer is submitted any more: on a
  restart request the attempt counter is bumped and, below the maximum, the FX3 is reset
  and every transfer submitted again; otherwise the session is given up.
\<close>

definition restart_round :: "mm_state \<Rightarrow> mm_state" where
  "restart_round s =
     (if restart_request s \<and> recording s then
        (let s1 = s\<lparr>restart_attempt := restart_attempt s + 1\<rparr> in
         if restart_attempt s1 = 1
            \<or> (restart_attempt s1 > 1 \<and> restart_attempt s1 < DEFAULT_MAX_RETRY_ATTEMPT)
         then s1\<lparr>fx3_resets := fx3_resets s1 + 1, restart_request := False,
                 submitted := replicate (length (submitted s1)) True\<rparr>
         else s1\<lparr>recording := False, restart_request := False\<rparr>)
      else s)"

text \<open>
  One turn of the inner loop \<open>while any( x.isSubmitted() ... )\<close>, followed by the
  restart round as soon as no transfer is left submitted.
\<close>

definition loop_step :: "mm_params \<Rightarrow> mm_state \<Rightarrow> event \<Rightarrow> mm_state" where
  "loop_step p s ev =
     (if True \<in> set (submitted s) then
        (let s' = handleEvents p s ev in
         if True \<in> set (submitted s') then s' else restart_round s')
      else s)"

fun transfer_loop :: "mm_params \<Rightarrow> mm_state \<Rightarrow> event list \<Rightarrow> mm_state" where
  "transfer_loop p s [] = s"
| "transfer_loop p s (ev # evs) = transfer_loop p (loop_step p s ev) evs"

text \<open>
  The state in which \<open>transfer_loop\<close> enters its recording loop: every transfer
  submitted, the index and the counter state at 0, the flags set. The attempt counter,
  the queue and the recorder are as the object has them.
\<close>

definition loop_start :: "mm_params \<Rightarrow> nat \<Rightarrow> frame list \<Rightarrow> h5_recorder \<Rightarrow> mm_state" where
  "loop_start p attempt q h =
     \<lparr>recording = True, restart_request = False, restart_attempt = attempt,
      counter_state = 0, previous_counter_state = 0, transfer_index = 0,
      signal_q = q, h5 = h, submitted = replicate (buffers_number p) True,
      fx3_resets = 0, downstream = []\<rparr>"

section \<open>The playback engine (\<open>_process_transfert\<close>, core\_h5.py)\<close>



section \<open>Auxiliary notions for the properties of the recorder\<close>


text \<open>The number of datasets written so far, over all files.\<close>

definition h5_datasets :: "h5_recorder \<Rightarrow> nat" where
  "h5_datasets h = sum_list (map (\<lambda>f. length (f_groups f)) (h5_files h))"

text \<open>
  A file whose root attributes agree with its groups: \<open>dataset_number\<close> groups, named
  0 to \<open>dataset_number - 1\<close>, and a duration of \<open>dataset_number\<close> dataset durations.
\<close>

definition file_ok :: "real \<Rightarrow> h5_file \<Rightarrow> bool" where
  "file_ok dd f \<longleftrightarrow>
     f_dataset_number f = length (f_groups f)
     \<and> map g_index (f_groups f) = [0..<f_dataset_number f]
     \<and> f_duration f = real (f_dataset_number f) * dd
     \<and> f_dataset_duration f = dd"

text \<open>
  The invariant of the recorder: there is a current file, every file is as above, the
  dataset index is the number of groups of the current file, and it does not pass a
  dataset number of 1 or more.
\<close>

definition h5_inv :: "h5_recorder \<Rightarrow> bool" where
  "h5_inv h \<longleftrightarrow>
     h5_files h \<noteq> []
     \<and> list_all (file_ok (h5_dataset_duration h)) (h5_files h)
     \<and> h5_dataset_index h = length (f_groups (last (h5_files h)))
     \<and> (1 \<le> h5_dataset_number h \<longrightarrow> int (h5_dataset_index h) \<le> h5_dataset_number h)"

section \<open>The broadcast hub (\<open>service_listen\<close>, \<open>handler_service_run\<close>, core\_server.py)\<close>

text \<open>
  The handler takes a frame (channels by samples) from the queue and transposes it:
  \<^verbatim>\<open>data = mm.signal_q.get( block=True, timeout=2 ).T\<close>. The number of columns of an
  array held as its rows is that of its first row.
\<close>

definition ncols :: "frame \<Rightarrow> nat" where
  "ncols F = (case F of [] \<Rightarrow> 0 | r # _ \<Rightarrow> length r)"

definition transpose_frame :: "frame \<Rightarrow> frame" where
  "transpose_frame F = map (\<lambda>k. map (\<lambda>row. row ! k) F) [0..<ncols F]"

text \<open>
  \<open>tobytes()\<close> lays the array out in C order: row after row, every \<open>int32\<close> as its
  four bytes, least significant first (the byte order of the machines the server runs on).
\<close>

definition le32 :: "32 word \<Rightarrow> 8 word list" where
  "le32 w = [ucast w, ucast (drop_bit 8 w), ucast (drop_bit 16 w), ucast (drop_bit 24 w)]"

definition tobytes :: "frame \<Rightarrow> 8 word list" where
  "tobytes X = concat (map (\<lambda>row. concat (map le32 row)) X)"

text \<open>Indexing an axis with a list of booleans keeps the positions that hold \<open>True\<close>.\<close>

definition np_bool_index :: "bool list \<Rightarrow> 'a list \<Rightarrow> 'a list" where
  "np_bool_index msk xs = map snd (filter fst (zip msk xs))"

text \<open>
  \<^verbatim>\<open>output = data[:,host['mask']].tobytes()\<close>: an empty list selects nothing; a boolean
  list whose length is not the number of columns of \<open>data\<close> raises \<open>IndexError\<close>.
\<close>

definition listener_output :: "frame \<Rightarrow> bool list \<Rightarrow> py_error + 8 word list" where
  "listener_output F msk =
     (let data = transpose_frame F in
      if msk = [] then Inr (tobytes (map (\<lambda>r. []) data))
      else if length msk \<noteq> length F then Inl IndexError
      else Inr (tobytes (map (np_bool_index msk) data)))"

text \<open>\<^verbatim>\<open>output = data.tobytes()\<close>, what the runner receives.\<close>

definition runner_output :: "frame \<Rightarrow> 8 word list" where
  "runner_output F = tobytes (transpose_frame F)"

text \<open>
  The wording of the specification: \<open>frame[M, :]\<close> keeps the rows of the frame that
  the mask selects, and a row-major image lays an array out row after row.
\<close>

definition select_rows :: "bool list \<Rightarrow> frame \<Rightarrow> frame" where
  "select_rows M F = map snd (filter fst (zip M F))"

definition serialize_row_major :: "frame \<Rightarrow> 8 word list" where
  "serialize_row_major X = concat (map (\<lambda>row. concat (map le32 row)) X)"

text \<open>
  What \<open>await websocket.send( output )\<close> does: the message is delivered, or the call
  raises \<open>ConnectionClosedOK\<close>, or it raises something else.
\<close>

datatype send_result = Delivered | RaisesConnectionClosedOK | RaisesOther

text \<open>
  An entry of \<open>_broadcast_connected\<close>; sockets are told apart by a number. The state of
  the server: the list of entries or \<open>None\<close>, and whether \<open>self._mm.stop()\<close> was called.
\<close>

record host =
  h_id :: nat
  h_websocket :: nat
  h_mask :: "bool list"

record server_state =
  broadcast_connected :: "host list option"
  mm_stopped :: bool

text \<open>The channels of the running session and those a listen request asks for.\<close>

record session_parameters =
  p_mems :: "nat list"
  p_analogs :: "nat list"
  p_counter :: bool
  p_counter_skip :: bool
  p_status :: bool

record listen_request =
  r_mems :: "nat list"
  r_analogs :: "nat list"
  r_counter :: bool
  r_status :: bool

definition np_isin :: "nat list \<Rightarrow> nat list \<Rightarrow> bool list" where
  "np_isin element test_elements = map (\<lambda>x. x \<in> set test_elements) element"

text \<open>
  The mask that \<open>service_listen\<close> computes, or \<open>None\<close> where it raises and the
  request is refused.
\<close>

definition listen_mask :: "session_parameters \<Rightarrow> listen_request \<Rightarrow> bool list option" where
  "listen_mask parameters req =
     (let mask_mems = np_isin (p_mems parameters) (r_mems req) in
      if length (filter (\<lambda>b. b) mask_mems) \<noteq> length (r_mems req) then None
      else let mask_analogs = np_isin (p_analogs parameters) (r_analogs req) in
      if length (filter (\<lambda>b. b) mask_analogs) \<noteq> length (r_analogs req) then None
      else let m0 = mask_mems @ mask_analogs in
      if r_counter req \<and> (\<not> p_counter parameters \<or> (p_counter parameters \<and> p_counter_skip parameters))
      then None
      else let m1 = (if r_counter req then True # m0 else m0) in
      if r_status req \<and> \<not> p_status parameters then None
      else Some (if r_status req then m1 @ [True] else m1))"

text \<open>An accepted listener is appended with the length of the list as its \<open>id\<close>.\<close>

definition service_listen ::
    "session_parameters \<Rightarrow> nat \<Rightarrow> listen_request \<Rightarrow> server_state \<Rightarrow> server_state" where
  "service_listen parameters websocket req s =
     (case broadcast_connected s of
        None \<Rightarrow> s
      | Some roster \<Rightarrow>
          if roster = [] then s
          else (case listen_mask parameters req of
                  None \<Rightarrow> s
                | Some msk \<Rightarrow>
                    s\<lparr>broadcast_connected :=
                        Some (roster @ [\<lparr>h_id = length roster, h_websocket = websocket,
                                         h_mask = msk\<rparr>])\<rparr>))"

text \<open>
  The loop \<open>for host in self._broadcast_connected\<close> on one frame. \<open>n\<close> is the length
  of the list, \<open>websocket\<close> the socket of the runner, \<open>net\<close> what each socket does on
  this send. The result is the list \<open>listen_clients_to_stop\<close>, or \<open>None\<close> when a
  handler stops the service and returns, and the messages sent.
\<close>

fun fanout ::
    "bool \<Rightarrow> nat \<Rightarrow> nat \<Rightarrow> (nat \<Rightarrow> send_result) \<Rightarrow> frame \<Rightarrow> host list \<Rightarrow> nat list
       \<Rightarrow> (nat \<times> 8 word list) list \<Rightarrow> nat list option \<times> (nat \<times> 8 word list) list" where
  "fanout stream_skip n websocket net F [] stops sent = (Some stops, sent)"
| "fanout stream_skip n websocket net F (host # hosts) stops sent =
     (if h_id host = 0 then
        (if \<not> stream_skip \<or> (stream_skip \<and> n = 1) then
           (case net websocket of
              Delivered \<Rightarrow>
                fanout stream_skip n websocket net F hosts stops (sent @ [(websocket, runner_output F)])
            | RaisesConnectionClosedOK \<Rightarrow> (None, sent)
            | RaisesOther \<Rightarrow> (None, sent))
         else fanout stream_skip n websocket net F hosts stops sent)
      else
        (case listener_output F (h_mask host) of
           Inl e \<Rightarrow> (None, sent)
         | Inr output \<Rightarrow>
             (case net (h_websocket host) of
                Delivered \<Rightarrow>
                  fanout stream_skip n websocket net F hosts stops
                    (sent @ [(h_websocket host, output)])
              | RaisesConnectionClosedOK \<Rightarrow>
                  fanout stream_skip n websocket net F hosts (stops @ [h_id host]) sent
              | RaisesOther \<Rightarrow> (None, sent))))"

text \<open>
  \<^verbatim>\<open>for i in listen_clients_to_stop: del self._broadcast_connected[i]\<close>: the list as the
  loop leaves it, and the \<open>IndexError\<close> of a \<open>del\<close> out of range.
\<close>

fun del_hosts :: "host list \<Rightarrow> nat list \<Rightarrow> host list \<times> py_error option" where
  "del_hosts roster [] = (roster, None)"
| "del_hosts roster (i # rest) =
     (if i < length roster then del_hosts (take i roster @ drop (Suc i) roster) rest
      else (roster, Some IndexError))"

text \<open>
  One turn of the sending loop of \<open>handler_service_run\<close>, up to the removal of the
  lost listeners. An exception that leaves the loop body stops the acquisition and is
  raised again.
\<close>

definition broadcast_frame ::
    "bool \<Rightarrow> nat \<Rightarrow> (nat \<Rightarrow> send_result) \<Rightarrow> frame \<Rightarrow> server_state
       \<Rightarrow> server_state \<times> (nat \<times> 8 word list) list \<times> py_error option" where
  "broadcast_frame stream_skip websocket net F s =
     (case broadcast_connected s of
        None \<Rightarrow> (s\<lparr>mm_stopped := True\<rparr>, [], Some TypeError)
      | Some roster \<Rightarrow>
          (case fanout stream_skip (length roster) websocket net F roster [] [] of
             (None, sent) \<Rightarrow> (s\<lparr>mm_stopped := True, broadcast_connected := None\<rparr>, sent, None)
           | (Some stops, sent) \<Rightarrow>
               (case del_hosts roster stops of
                  (roster', None) \<Rightarrow> (s\<lparr>broadcast_connected := Some roster'\<rparr>, sent, None)
                | (roster', Some e) \<Rightarrow>
                    (s\<lparr>broadcast_connected := Some roster', mm_stopped := True\<rparr>, sent, Some e))))"

section \<open>The \<open>MegaMicro\<close> class as a namespace (core\_base.py)\<close>

text \<open>
  Python values, and an instance as the function from the names of its attributes
  (\<open>_clockdiv\<close>, \<open>_status\<close>, ...) to their values.
\<close>

datatype py_value =
    PyNone | PyBool bool | PyInt int | PyFloat real | PyStr string
  | PyList "py_value list" | PyDict "(string \<times> py_value) list" | PyObject string

type_synonym py_instance = "string \<Rightarrow> py_value"

text \<open>What a \<open>def\<close> of the class body binds its name to: a property or a method.\<close>

datatype class_member = Property "py_instance \<Rightarrow> py_value" | Method

definition MU_MEMS_SENSIBILITY :: py_value where
  "MU_MEMS_SENSIBILITY = PyObject ''MU_MEMS_SENSIBILITY''"

text \<open>The dictionary that the second \<open>status\<close> property returns.\<close>

definition status_dict :: "py_instance \<Rightarrow> py_value" where
  "status_dict self = PyDict
       [(''clockdiv'', self ''_clockdiv''),
        (''sampling_frequency'', self ''_sampling_frequency''),
        (''buffer_length'', self ''_buffer_length''),
        (''buffers_number'', self ''_buffers_number''),
        (''buffer_duration'', self ''_buffer_duration''),
        (''duration'', self ''_duration''),
        (''mems'', self ''_mems''),
        (''mems_number'', self ''_mems_number''),
        (''analogs'', self ''_analogs''),
        (''analogs_number'', self ''_analogs_number''),
        (''counter'', self ''_counter''),
        (''counter_skip'', self ''_counter_skip''),
        (''status'', self ''_status''),
        (''start_trig'', self ''_start_trig''),
        (''channels_number'', self ''_channels_number''),
        (''buffer_words_length'', self ''_buffer_words_length''),
        (''transfers_count'', self ''_transfers_count''),
        (''block'', self ''_block''),
        (''h5_recording'', self ''_h5_recording''),
        (''h5_rootdir'', self ''_h5_rootdir''),
        (''h5_dataset_duration'', self ''_h5_dataset_duration''),
        (''h5_file_duration'', self ''_h5_file_duration''),
        (''h5_compressing'', self ''_h5_compressing''),
        (''h5_compression_algo'', self ''_h5_compression_algo''),
        (''h5_gzip_level'', self ''_h5_gzip_level''),
        (''cv_monitoring'', self ''_cv_monitoring''),
        (''cv_codec'', self ''_cv_codec''),
        (''cv_device'', self ''_cv_device''),
        (''cv_rootdir'', self ''_cv_rootdir''),
        (''cv_color_mode'', self ''_cv_color_mode''),
        (''cv_sampling_frequency'', self ''_cv_sampling_frequency''),
        (''cv_show'', self ''_cv_show''),
        (''cv_file_duration'', self ''_cv_file_duration'')]"

definition parameters_dict :: "py_instance \<Rightarrow> py_value" where
  "parameters_dict self = PyDict
       [(''clockdiv'', self ''_clockdiv''),
        (''sampling_frequency'', self ''_sampling_frequency''),
        (''buffer_length'', self ''_buffer_length''),
        (''buffers_number'', self ''_buffers_number''),
        (''buffer_duration'', self ''_buffer_duration''),
        (''duration'', self ''_duration''),
        (''mems'', self ''_mems''),
        (''available_mems'', self ''_available_mems''),
        (''mems_number'', self ''_mems_number''),
        (''analogs'', self ''_analogs''),
        (''analogs_number'', self ''_analogs_number''),
        (''counter'', self ''_counter''),
        (''counter_skip'', self ''_counter_skip''),
        (''status'', self ''_status''),
        (''start_trig'', self ''_start_trig''),
        (''channels_number'', self ''_channels_number''),
        (''buffer_words_length'', self ''_buffer_words_length''),
        (''transfers_count'', self ''_transfers_count''),
        (''block'', self ''_block''),
        (''h5_recording'', self ''_h5_recording''),
        (''h5_rootdir'', self ''_h5_rootdir''),
        (''h5_dataset_duration'', self ''_h5_dataset_duration''),
        (''h5_file_duration'', self ''_h5_file_duration''),
        (''h5_compressing'', self ''_h5_compressing''),
        (''h5_compression_algo'', self ''_h5_compression_algo''),
        (''h5_gzip_level'', self ''_h5_gzip_level''),
        (''cv_monitoring'', self ''_cv_monitoring''),
        (''cv_codec'', self ''_cv_codec''),
        (''cv_device'', self ''_cv_device''),
        (''cv_rootdir'', self ''_cv_rootdir''),
        (''cv_color_mode'', self ''_cv_color_mode''),
        (''cv_sampling_frequency'', self ''_cv_sampling_frequency''),
        (''cv_show'', self ''_cv_show''),
        (''cv_file_duration'', self ''_cv_file_duration'')]"

text \<open>The \<open>def\<close>s of the class body, in the order of the source.\<close>

definition MegaMicro_body :: "(string \<times> class_member) list" where
  "MegaMicro_body =
     [(''__init__'', Method),
      (''__del__'', Method),
      (''signal_q'', Property (\<lambda>self. self ''_signal_q'')),
      (''signal_ts'', Property (\<lambda>self. self ''_signal_ts'')),
      (''mems'', Property (\<lambda>self. self ''_mems'')),
      (''mems_number'', Property (\<lambda>self. self ''_mems_number'')),
      (''analogs'', Property (\<lambda>self. self ''_analogs'')),
      (''analogs_number'', Property (\<lambda>self. self ''_analogs_number'')),
      (''counter'', Property (\<lambda>self. self ''_counter'')),
      (''counter_skip'', Property (\<lambda>self. self ''_counter_skip'')),
      (''status'', Property (\<lambda>self. self ''_status'')),
      (''channels_number'', Property (\<lambda>self. self ''_channels_number'')),
      (''clockdiv'', Property (\<lambda>self. self ''_clockdiv'')),
      (''start_trig'', Property (\<lambda>self. self ''_start_trig'')),
      (''sampling_frequency'', Property (\<lambda>self. self ''_sampling_frequency'')),
      (''buffer_length'', Property (\<lambda>self. self ''_buffer_length'')),
      (''buffers_number'', Property (\<lambda>self. self ''_buffers_number'')),
      (''buffer_duration'', Property (\<lambda>self. self ''_buffer_duration'')),
      (''duration'', Property (\<lambda>self. self ''_duration'')),
      (''transfers_count'', Property (\<lambda>self. self ''_transfers_count'')),
      (''datatype'', Property (\<lambda>self. self ''_datatype'')),
      (''sensibility'', Property (\<lambda>self. MU_MEMS_SENSIBILITY)),
      (''available_mems'', Property (\<lambda>self. self ''_available_mems'')),
      (''status'', Property status_dict),
      (''parameters'', Property parameters_dict),
      (''h5_recording'', Property (\<lambda>self. self ''_h5_recording'')),
      (''h5_rootdir'', Property (\<lambda>self. self ''_h5_rootdir'')),
      (''h5_dataset_duration'', Property (\<lambda>self. self ''_h5_dataset_duration'')),
      (''h5_dataset_length'', Property (\<lambda>self. self ''_h5_dataset_length'')),
      (''h5_file_duration'', Property (\<lambda>self. self ''_h5_file_duration'')),
      (''h5_compressing'', Property (\<lambda>self. self ''_h5_compressing'')),
      (''h5_compression_algo'', Property (\<lambda>self. self ''_h5_compression_algo'')),
      (''h5_gzip_level'', Property (\<lambda>self. self ''_h5_gzip_level'')),
      (''h5_dataset_number'', Property (\<lambda>self. self ''_h5_dataset_number'')),
      (''queue_size'', Property (\<lambda>self. self ''_queue_size'')),
      (''disconnect_usb'', Method),
      (''ctrlCypressResetFx3'', Method),
      (''check_usb'', Method),
      (''ctrlWrite'', Method),
      (''ctrlWriteReset'', Method),
      (''ctrlTixels'', Method),
      (''ctrlResetAcq32'', Method),
      (''ctrlResetFx3'', Method),
      (''ctrlResetMu32'', Method),
      (''ctrlResetFPGA'', Method),
      (''ctrlClockdiv'', Method),
      (''ctrlDatatype'', Method),
      (''ctrlMems'', Method),
      (''ctrlCSA'', Method),
      (''ctrlStart'', Method),
      (''ctrlStartTrig'', Method),
      (''ctrlStop'', Method),
      (''ctrlPowerOffMic'', Method),
      (''processFlush'', Method),
      (''processRun'', Method),
      (''run_setargs'', Method),
      (''run'', Method),
      (''wait'', Method),
      (''is_alive'', Method),
      (''stop'', Method),
      (''cv_monitor_loop'', Method),
      (''cv_log_info'', Method),
      (''transfer_loop'', Method),
      (''autotest'', Method),
      (''callback_power'', Method),
      (''save'', Method),
      (''h5_log_info'', Method),
      (''h5_init'', Method),
      (''h5_init_file'', Method),
      (''h5_write_mems'', Method),
      (''h5_close'', Method)]"

text \<open>
  The class body is executed from top to bottom and every \<open>def\<close> binds its name anew.
  Reading an attribute of an instance finds a property of the class first.
\<close>

definition class_namespace :: "(string \<times> class_member) list \<Rightarrow> string \<rightharpoonup> class_member" where
  "class_namespace body = foldl (\<lambda>ns (name, m). ns(name \<mapsto> m)) Map.empty body"

definition getattr :: "py_instance \<Rightarrow> string \<Rightarrow> py_value" where
  "getattr self name =
     (case class_namespace MegaMicro_body name of
        Some (Property fget) \<Rightarrow> fget self
      | Some Method \<Rightarrow> PyObject name
      | None \<Rightarrow> self name)"

section \<open>Auxiliary notions for the properties of the engine\<close>

text \<open>The number of transfers that are submitted.\<close>

definition pending :: "mm_state \<Rightarrow> nat" where
  "pending s = length (filter (\<lambda>b. b) (submitted s))"

text \<open>
  The counting invariant of the recording loop: the transfer index counts the frames
  handed downstream; while the recording flag is set the index has not passed the
  transfer count; once it is cleared, the index and the transfers still submitted
  together stay within the count, plus one, plus the number of transfers.
\<close>

definition count_inv :: "mm_params \<Rightarrow> mm_state \<Rightarrow> bool" where
  "count_inv p s \<longleftrightarrow>
     int (length (downstream s)) = transfer_index s
     \<and> length (submitted s) = buffers_number p
     \<and> (recording s \<longrightarrow> transfer_index s \<le> transfers_count p)
     \<and> (\<not> recording s \<longrightarrow>
           transfer_index s + int (pending s) \<le> transfers_count p + 1 + int (buffers_number p))"

text \<open>The same, right after a completion: one transfer fewer is submitted.\<close>

definition count_inv' :: "mm_params \<Rightarrow> mm_state \<Rightarrow> bool" where
  "count_inv' p s \<longleftrightarrow>
     int (length (downstream s)) = transfer_index s
     \<and> length (submitted s) = buffers_number p
     \<and> pending s < buffers_number p
     \<and> (recording s \<longrightarrow> transfer_index s \<le> transfers_count p)
     \<and> (\<not> recording s \<longrightarrow>
           transfer_index s + int (pending s) + 1 \<le> transfers_count p + 1 + int (buffers_number p))"

text \<open>
  What the counter control establishes of a frame that keeps its counter row (row 0):
  the last counter value minus the first, plus one, is the buffer length.
\<close>

definition endpoints_ok :: "mm_params \<Rightarrow> frame \<Rightarrow> bool" where
  "endpoints_ok p f \<longleftrightarrow>
     length f = channels_number p \<and> list_all (\<lambda>r. length r = buffer_length p) f
     \<and> 0 < channels_number p \<and> 0 < buffer_length p
     \<and> sint (f ! 0 ! (buffer_length p - 1) - f ! 0 ! 0) + 1 = int (buffer_length p)"

definition frames_inv :: "mm_params \<Rightarrow> mm_state \<Rightarrow> bool" where
  "frames_inv p s \<longleftrightarrow> list_all (endpoints_ok p) (downstream s)"

text \<open>
  One misalignment: a transfer fails the counter control, which sets the restart
  request and nothing else, and the loop runs its restart round.
\<close>

definition misaligned_round :: "mm_state \<Rightarrow> mm_state" where
  "misaligned_round s = restart_round (s\<lparr>restart_request := True\<rparr>)"


section \<open>Concrete sessions\<close>

definition date0 :: datetime where
  "date0 = \<lparr>year = 2022, month = 5, day = 7, hour = 22, minute = 42, second = 0\<rparr>"

text \<open>
  One second at 50000 Hz in buffers of 25000 samples, one microphone, no counter, two
  transfers in flight.
\<close>

definition p2 :: mm_params where
  "p2 = \<lparr>sampling_frequency = 50000, buffer_length = 25000, buffers_number = 2,
     buffer_duration = 1 / 2, channels_number = 1, counter = False, counter_skip = False,
     start_trig = False, transfers_count = 2, queue_size = 0, callback_fn = None,
     h5_recording = False\<rparr>"

definition tr2 :: "nat \<Rightarrow> transfer" where
  "tr2 i = \<lparr>t_id = i, t_status = TRANSFER_COMPLETED, t_data = replicate 25000 0,
     t_submit_raises = False, t_now = 0, t_date = date0\<rparr>"

text \<open>
  The counter and one microphone, the counter row kept, buffers of 3 samples. The
  transfer \<open>tr3\<close> carries the counter values 0, 7, 2; \<open>tr4\<close> carries 0, 1, 5.
\<close>

definition p3 :: mm_params where
  "p3 = \<lparr>sampling_frequency = 50000, buffer_length = 3, buffers_number = 2,
     buffer_duration = 3 / 50000, channels_number = 2, counter = True, counter_skip = False,
     start_trig = False, transfers_count = 16666, queue_size = 0, callback_fn = None,
     h5_recording = False\<rparr>"

definition tr3 :: transfer where
  "tr3 = \<lparr>t_id = 0, t_status = TRANSFER_COMPLETED, t_data = [0, 0, 7, 0, 2, 0],
     t_submit_raises = False, t_now = 0, t_date = date0\<rparr>"

definition tr4 :: transfer where
  "tr4 = \<lparr>t_id = 0, t_status = TRANSFER_COMPLETED, t_data = [0, 0, 1, 0, 5, 0],
     t_submit_raises = False, t_now = 0, t_date = date0\<rparr>"

text \<open>
  \<open>tr5\<close> carries the counter values 0, 1, 2. In \<open>gap_round\<close> the first transfer
  completes with a gap in its counter and the second one completes after it.
\<close>

definition tr5 :: transfer where
  "tr5 = \<lparr>t_id = 0, t_status = TRANSFER_COMPLETED, t_data = [0, 0, 1, 0, 2, 0],
     t_submit_raises = False, t_now = 0, t_date = date0\<rparr>"

definition gap_round :: "event list" where
  "gap_round = [Completion tr4, Completion (tr4\<lparr>t_id := 1\<rparr>)]"




text \<open>
  A session with four microphones, a listen request for two of them, the hub with its
  runner alone and with two such listeners, a frame of one sample, and sockets that are
  closed.
\<close>

definition session4 :: session_parameters where
  "session4 = \<lparr>p_mems = [0, 1, 2, 3], p_analogs = [], p_counter = False,
      p_counter_skip = False, p_status = False\<rparr>"

definition listen13 :: listen_request where
  "listen13 = \<lparr>r_mems = [1, 3], r_analogs = [], r_counter = False, r_status = False\<rparr>"

definition hub0 :: server_state where
  "hub0 = \<lparr>broadcast_connected = Some [\<lparr>h_id = 0, h_websocket = 100, h_mask = []\<rparr>],
           mm_stopped = False\<rparr>"

definition hub2 :: server_state where
  "hub2 = service_listen session4 102 listen13 (service_listen session4 101 listen13 hub0)"

definition frame4 :: frame where
  "frame4 = [[10], [11], [12], [13]]"

definition net_both_closed :: "nat \<Rightarrow> send_result" where
  "net_both_closed ws = (if ws = 100 then Delivered else RaisesConnectionClosedOK)"

definition net_closed :: "nat \<Rightarrow> nat \<Rightarrow> send_result" where
  "net_closed w ws = (if ws = w then RaisesConnectionClosedOK else Delivered)"

section \<open>Rounding to a double\<close>

text \<open>
  Rounding keeps the order, leaves the integers up to \<open>2 ^ 53\<close> as they are and, from
  1/2 on, moves a number by at most its \<open>2 ^ 53\<close>-th part.
\<close>

lemma rhe_bounds: "\<lfloor>y\<rfloor> \<le> round_half_even y" "round_half_even y \<le> \<lfloor>y\<rfloor> + 1"
  by (simp_all add: round_half_even_def Let_def)

lemma rhe_int [simp]: "round_half_even (of_int n) = n"
  by (simp add: round_half_even_def)

lemma rhe_zero [simp]: "round_half_even 0 = 0"
  by (simp add: round_half_even_def)

lemma rhe_error: "\<bar>of_int (round_half_even y) - y\<bar> \<le> 1 / 2"
proof -
  have "of_int \<lfloor>y\<rfloor> \<le> y" "y < of_int \<lfloor>y\<rfloor> + 1" by linarith+
  then show ?thesis by (auto simp: round_half_even_def Let_def)
qed

lemma rhe_mono: assumes "y \<le> z" shows "round_half_even y \<le> round_half_even z"
proof (cases "\<lfloor>y\<rfloor> = \<lfloor>z\<rfloor>")
  case True
  then show ?thesis using assms by (auto simp: round_half_even_def Let_def)
next
  case False
  then have "\<lfloor>y\<rfloor> < \<lfloor>z\<rfloor>" using assms floor_mono [of y z] by linarith
  then show ?thesis using rhe_bounds(2) [of y] rhe_bounds(1) [of z] by linarith
qed

lemma ulp_pos [simp]: "0 < double_ulp x"
  by (simp add: double_ulp_def)

lemma ulp_nonneg [simp]: "0 \<le> double_ulp x"
  by (simp add: double_ulp_def)

lemma ulp_top: "(2::real) powr (of_int (double_exponent x) + 1) = 2 ^ 53 * double_ulp x"
proof -
  have "(2::real) powr (of_int (double_exponent x) + 1)
          = 2 powr (of_int (double_exponent x - 52) + 53)" by (simp add: add.commute)
  also have "\<dots> = 2 powr of_int (double_exponent x - 52) * 2 powr 53"
    by (simp only: powr_add)
  finally show ?thesis by (simp add: double_ulp_def)
qed

lemma ulp_bottom: "(2::real) powr of_int (double_exponent x) = 2 ^ 52 * double_ulp x"
proof -
  have "(2::real) powr of_int (double_exponent x)
          = 2 powr (of_int (double_exponent x - 52) + 52)" by simp
  also have "\<dots> = 2 powr of_int (double_exponent x - 52) * 2 powr 52"
    by (simp only: powr_add)
  finally show ?thesis by (simp add: double_ulp_def)
qed

lemma below_top: assumes "0 < x" shows "x < 2 powr (of_int (double_exponent x) + 1)"
proof -
  have "x < 2 powr (of_int \<lfloor>log 2 x\<rfloor> + 1)"
    using floor_log_eq_powr_iff [of x 2 "\<lfloor>log 2 x\<rfloor>"] assms by simp
  also have "\<dots> \<le> 2 powr (of_int (double_exponent x) + 1)"
    using assms by (simp add: double_exponent_def)
  finally show ?thesis .
qed

lemma above_bottom:
  assumes "0 < x" "- 1022 < double_exponent x"
  shows "2 powr of_int (double_exponent x) \<le> x"
proof -
  have "double_exponent x = \<lfloor>log 2 x\<rfloor>"
    using assms by (simp add: double_exponent_def max_def split: if_splits)
  then show ?thesis
    using floor_log_eq_powr_iff [of x 2 "\<lfloor>log 2 x\<rfloor>"] assms(1) by simp
qed

lemma exponent_mono:
  assumes "0 < x" "x \<le> y" shows "double_exponent x \<le> double_exponent y"
proof -
  have "log 2 x \<le> log 2 y" using assms by simp
  then have "\<lfloor>log 2 x\<rfloor> \<le> \<lfloor>log 2 y\<rfloor>" by (rule floor_mono)
  then show ?thesis using assms by (simp add: double_exponent_def)
qed

lemma double_round_nonneg: "0 \<le> x \<Longrightarrow> 0 \<le> double_round x"
proof -
  assume "0 \<le> x"
  then have "0 \<le> x / double_ulp x" using ulp_pos [of x] by (simp add: less_imp_le)
  then have "0 \<le> round_half_even (x / double_ulp x)"
    using rhe_mono [of 0 "x / double_ulp x"] by simp
  then show ?thesis by (simp add: double_round_def zero_le_mult_iff)
qed

lemma double_round_mono_pos:
  assumes "0 < x" "x \<le> y" shows "double_round x \<le> double_round y"
proof (cases "double_exponent x = double_exponent y")
  case True
  then have u: "double_ulp x = double_ulp y" by (simp add: double_ulp_def)
  have "x / double_ulp y \<le> y / double_ulp y"
    using assms(2) ulp_pos [of y] by (simp add: divide_right_mono less_imp_le)
  then have "round_half_even (x / double_ulp y) \<le> round_half_even (y / double_ulp y)"
    by (rule rhe_mono)
  then show ?thesis using assms u by (simp add: double_round_def)
next
  case False
  then have lt: "double_exponent x < double_exponent y"
    using exponent_mono [OF assms] by simp
  have ypos: "0 < y" using assms by simp
  have "x / double_ulp x < 2 ^ 53"
    using below_top [OF assms(1)] by (simp add: ulp_top divide_less_eq)
  then have "x / double_ulp x \<le> of_int (2 ^ 53)" by simp
  then have "round_half_even (x / double_ulp x) \<le> 2 ^ 53"
    using rhe_mono [of "x / double_ulp x" "of_int (2 ^ 53)"] by (simp only: rhe_int)
  then have "of_int (round_half_even (x / double_ulp x)) * double_ulp x \<le> 2 ^ 53 * double_ulp x"
    by (simp add: mult_right_mono)
  then have a: "double_round x \<le> 2 powr (of_int (double_exponent x) + 1)"
    using assms(1) by (simp add: double_round_def ulp_top)
  have "of_int (double_exponent x) + 1 \<le> (of_int (double_exponent y) :: real)"
    using lt by linarith
  then have b: "2 powr (of_int (double_exponent x) + 1) \<le> (2::real) powr of_int (double_exponent y)"
    by simp
  have "- 1022 < double_exponent y"
    using lt by (simp add: double_exponent_def)
  then have "2 powr of_int (double_exponent y) \<le> y" using above_bottom [OF ypos] by simp
  then have "of_int (2 ^ 52) \<le> y / double_ulp y"
    by (simp add: ulp_bottom le_divide_eq)
  then have "2 ^ 52 \<le> round_half_even (y / double_ulp y)"
    using rhe_mono [of "of_int (2 ^ 52)" "y / double_ulp y"] by (simp only: rhe_int)
  then have "2 ^ 52 * double_ulp y \<le> of_int (round_half_even (y / double_ulp y)) * double_ulp y"
    by (simp add: mult_right_mono)
  then have c: "2 powr of_int (double_exponent y) \<le> double_round y"
    using ypos by (simp add: double_round_def ulp_bottom)
  show ?thesis using a b c by linarith
qed

lemma double_round_mono:
  assumes "0 \<le> x" "x \<le> y" shows "double_round x \<le> double_round y"
proof (cases "x = 0")
  case True
  then show ?thesis using assms double_round_nonneg [of y] by (simp add: double_round_def)
next
  case False
  then show ?thesis using assms double_round_mono_pos [of x y] by simp
qed


lemma double_round_exact:
  assumes "x / double_ulp x = of_int k" shows "double_round x = x"
proof (cases "x = 0")
  case True then show ?thesis by (simp add: double_round_def)
next
  case False
  have "of_int (round_half_even (x / double_ulp x)) * double_ulp x = (x / double_ulp x) * double_ulp x"
    by (simp only: assms rhe_int)
  also have "\<dots> = x"
  proof -
    have "double_ulp x \<noteq> 0" using ulp_pos [of x] by linarith
    then show ?thesis by simp
  qed
  finally show ?thesis using False by (simp add: double_round_def)
qed

lemma double_round_int:
  assumes "0 \<le> n" "n \<le> 2 ^ 53" shows "double_round (of_int n) = of_int n"
proof (cases "n = 0")
  case True then show ?thesis by (simp add: double_round_def)
next
  case False
  let ?x = "real_of_int n"
  let ?e = "double_exponent ?x"
  have pos: "0 < ?x" "1 \<le> ?x" using assms False by simp_all
  define L where "L = \<lfloor>log 2 ?x\<rfloor>"
  have "0 \<le> log 2 ?x" using pos by simp
  then have f0: "0 \<le> L" unfolding L_def by (rule zero_le_floor [THEN iffD2])
  have "?e = max L (- 1022)" using pos(1) by (simp only: double_exponent_def L_def abs_of_pos)
  then have e: "?e = L" using f0 by simp
  have e0: "0 \<le> ?e" using f0 e by simp
  have "real_of_int n \<le> real_of_int (2 ^ 53)" using assms(2) by (simp only: of_int_le_iff)
  then have x53: "?x \<le> 2 ^ 53" by simp
  then have "?x \<le> 2 powr 53" by simp
  then have "log 2 ?x \<le> 53" using pos by (simp add: log_le_iff)
  then have "log 2 ?x < 54" by simp
  then have "L < 54" unfolding L_def by (simp add: floor_less_iff)
  then have e53: "?e \<le> 53" using e by simp
  show ?thesis
  proof (cases "?e = 53")
    case True
    have "2 powr of_int ?e \<le> ?x" using above_bottom [of ?x] pos e0 by simp
    then have "2 ^ 53 \<le> ?x" using True by simp
    then have x: "?x = 2 ^ 53" using x53 by simp
    have "double_ulp ?x = 2" using True by (simp add: double_ulp_def)
    then have "?x / double_ulp ?x = of_int (2 ^ 52)" using x by simp
    then show ?thesis by (rule double_round_exact)
  next
    case False
    define k where "k = nat (52 - ?e)"
    have k: "of_int (?e - 52) = - real k" using e53 False by (simp add: k_def)
    have "double_ulp ?x = 2 powr (- real k)" by (simp only: double_ulp_def k)
    also have "\<dots> = inverse (2 ^ k)" by (simp add: powr_minus powr_realpow)
    finally have u: "double_ulp ?x = inverse (2 ^ k)" .
    have "?x / double_ulp ?x = ?x * 2 ^ k" unfolding u by (simp add: divide_inverse)
    also have "\<dots> = of_int (n * 2 ^ k)" by simp
    finally show ?thesis by (rule double_round_exact)
  qed
qed

lemma double_round_error:
  assumes "1 / 2 \<le> x" shows "\<bar>double_round x - x\<bar> \<le> x / 2 ^ 53"
proof -
  have pos: "0 < x" using assms by simp
  define L where "L = \<lfloor>log 2 x\<rfloor>"
  have "log 2 (1 / 2) \<le> log 2 x" using assms by simp
  then have "- 1 \<le> log 2 x" by (simp add: log_divide)
  then have "of_int (- 1) \<le> log 2 x" by simp
  then have "- 1 \<le> L" unfolding L_def by (rule le_floor_iff [THEN iffD2])
  moreover have "double_exponent x = max L (- 1022)"
    using pos by (simp only: double_exponent_def L_def abs_of_pos)
  ultimately have "- 1022 < double_exponent x" by simp
  then have "2 powr of_int (double_exponent x) \<le> x" by (rule above_bottom [OF pos])
  then have u: "2 ^ 52 * double_ulp x \<le> x" by (simp add: ulp_bottom)
  have "\<bar>of_int (round_half_even (x / double_ulp x)) - x / double_ulp x\<bar> * double_ulp x
          \<le> (1 / 2) * double_ulp x"
    using rhe_error [of "x / double_ulp x"] by (intro mult_right_mono) simp_all
  moreover have "\<bar>of_int (round_half_even (x / double_ulp x)) - x / double_ulp x\<bar> * double_ulp x
          = \<bar>of_int (round_half_even (x / double_ulp x)) * double_ulp x - x\<bar>"
  proof -
    have "\<bar>of_int (round_half_even (x / double_ulp x)) - x / double_ulp x\<bar> * double_ulp x
            = \<bar>(of_int (round_half_even (x / double_ulp x)) - x / double_ulp x) * double_ulp x\<bar>"
      by (simp add: abs_mult)
    also have "(of_int (round_half_even (x / double_ulp x)) - x / double_ulp x) * double_ulp x
            = of_int (round_half_even (x / double_ulp x)) * double_ulp x - x"
    proof -
      have "double_ulp x \<noteq> 0" using ulp_pos [of x] by linarith
      then show ?thesis by (simp add: left_diff_distrib)
    qed
    finally show ?thesis .
  qed
  ultimately have "\<bar>double_round x - x\<bar> \<le> double_ulp x / 2"
    using pos by (simp add: double_round_def)
  moreover have "double_ulp x / 2 \<le> x / 2 ^ 53" using u by simp
  ultimately show ?thesis by linarith
qed

lemma trunc_quotient:
  assumes "1 \<le> n"
  shows "\<lfloor>double_round (500000 / of_int n)\<rfloor> = 500000 div n"
    and "double_round (500000 / of_int n) \<le> 500000"
proof -
  let ?q = "500000 / real_of_int n"
  let ?m = "500000 div n"
  have npos: "0 < real_of_int n" using assms by simp
  have qpos: "0 < ?q" using npos by simp
  have m0: "0 \<le> ?m" using assms by (simp add: pos_imp_zdiv_nonneg_iff)
  have "?m \<le> 500000 div 1" using assms by (intro zdiv_mono2) simp_all
  then have m5: "?m \<le> 500000" by simp
  have eq: "500000 = n * ?m + 500000 mod n" by simp
  have mle: "of_int ?m \<le> ?q"
  proof -
    have "0 \<le> 500000 mod n" using assms by simp
    then have "n * ?m \<le> 500000" using eq by linarith
    then have "real_of_int (n * ?m) \<le> 500000" by linarith
    then show ?thesis using npos by (simp add: le_divide_eq mult.commute)
  qed
  have low: "of_int ?m \<le> double_round ?q"
  proof -
    have "double_round (of_int ?m) \<le> double_round ?q"
      using mle m0 by (intro double_round_mono) simp_all
    moreover have "double_round (of_int ?m) = of_int ?m"
      using m0 m5 by (intro double_round_int) simp_all
    ultimately show ?thesis by simp
  qed
  have qle: "?q \<le> 500000" using assms npos by (simp add: divide_le_eq)
  show top: "double_round ?q \<le> 500000"
  proof -
    have "double_round ?q \<le> double_round (of_int 500000)"
      using qle qpos by (intro double_round_mono) simp_all
    also have "\<dots> = of_int 500000" by (intro double_round_int) simp_all
    finally show ?thesis by simp
  qed
  have up: "double_round ?q < of_int ?m + 1"
  proof (cases "500000 < n")
    case True
    then have m: "?m = 0" by (simp add: div_pos_pos_trivial)
    have "?q \<le> 500000 / 500001" using True npos by (simp add: field_simps)
    then have "double_round ?q \<le> double_round (500000 / 500001)"
      using qpos by (intro double_round_mono) simp_all
    moreover have "\<bar>double_round (500000 / 500001) - 500000 / 500001\<bar> \<le> (500000 / 500001) / 2 ^ 53"
      by (rule double_round_error) simp
    moreover have "(500000 / 500001) / 2 ^ 53 \<le> (1 / 1000000 :: real)" by simp
    moreover have "(500000 / 500001 :: real) + 1 / 1000000 < 1" by simp
    ultimately have "double_round ?q < 1" by linarith
    then show ?thesis using m by simp
  next
    case False
    then have q1: "1 \<le> ?q" using npos by (simp add: le_divide_eq)
    have err: "\<bar>double_round ?q - ?q\<bar> \<le> ?q / 2 ^ 53"
      using q1 by (intro double_round_error) simp
    have "500000 mod n \<le> n - 1" using assms pos_mod_bound [of n 500000] by simp
    then have "500000 \<le> n * ?m + (n - 1)" using eq by linarith
    then have "real_of_int 500000 \<le> real_of_int (n * ?m + (n - 1))" by (simp only: of_int_le_iff)
    then have "500000 \<le> real_of_int n * (of_int ?m + 1) - 1" by (simp add: algebra_simps)
    then have "?q \<le> (real_of_int n * (of_int ?m + 1) - 1) / real_of_int n"
      using npos by (simp add: divide_right_mono)
    also have "\<dots> = of_int ?m + 1 - 1 / real_of_int n" using npos by (simp add: field_simps)
    finally have a: "?q \<le> of_int ?m + 1 - 1 / real_of_int n" .
    have "real_of_int n \<le> 500000" using False by simp
    then have b: "1 / 500000 \<le> 1 / real_of_int n" using npos by (simp add: field_simps)
    have c: "?q / 2 ^ 53 \<le> 500000 / 2 ^ 53" using qle by (simp add: divide_right_mono)
    have d: "(500000 / 2 ^ 53 :: real) < 1 / 500000" by simp
    show ?thesis using err a b c d by linarith
  qed
  show "\<lfloor>double_round ?q\<rfloor> = ?m" using low up by (simp add: floor_eq_iff)
qed

lemma double_round_eval:
  assumes "2 powr of_int e \<le> \<bar>x\<bar>" "\<bar>x\<bar> < 2 powr (of_int e + 1)" "- 1022 \<le> e"
  shows "double_round x
           = of_int (round_half_even (x / 2 powr of_int (e - 52))) * 2 powr of_int (e - 52)"
proof -
  have pos: "0 < \<bar>x\<bar>" using assms(1) by (smt (verit) powr_gt_zero)
  have "\<lfloor>log 2 \<bar>x\<bar>\<rfloor> = e"
    using floor_log_eq_powr_iff [of "\<bar>x\<bar>" 2 e] pos assms(1,2) by simp
  then have "double_exponent x = e" using assms(3) by (simp add: double_exponent_def)
  then show ?thesis using pos by (simp add: double_round_def double_ulp_def)
qed

section \<open>Clock divisor resolution\<close>

lemma py_int_nonneg: "0 \<le> x \<Longrightarrow> py_int x = \<lfloor>x\<rfloor>"
  by (simp add: py_int_def)

lemma no_overflow: "0 \<le> x \<Longrightarrow> x \<le> 500000 \<Longrightarrow> \<not> double_overflow x"
proof -
  assume a: "0 \<le> x" "x \<le> 500000"
  have "double_round x \<le> double_round (of_int 500000)"
    using a by (intro double_round_mono) simp_all
  also have "\<dots> = of_int 500000" by (intro double_round_int) simp_all
  finally have "double_round x \<le> 500000" by simp
  moreover have "0 \<le> double_round x" using a(1) by (rule double_round_nonneg)
  moreover have "(500000::real) < 2 ^ 1024" by simp
  ultimately show ?thesis unfolding double_overflow_def by linarith
qed

lemma resolved_le_50000:
  assumes "9 \<le> cd" shows "double_round (500000 / (real_of_int cd + 1)) \<le> 50000"
proof -
  have "10 \<le> real_of_int cd + 1" using assms by simp
  then have "500000 / (real_of_int cd + 1) \<le> 50000" by (simp add: divide_le_eq)
  moreover have "0 \<le> 500000 / (real_of_int cd + 1)" using assms by simp
  ultimately have "double_round (500000 / (real_of_int cd + 1)) \<le> double_round (of_int 50000)"
    by (intro double_round_mono) simp_all
  also have "\<dots> = of_int 50000" by (intro double_round_int) simp_all
  finally show ?thesis by simp
qed

lemma run_setargs_clock_int:
  assumes "1 \<le> n"
  shows "run_setargs_clock (of_int n)
           = Inr (max (500000 div n - 1) 9,
                  double_round (500000 / (real_of_int (max (500000 div n - 1) 9) + 1)))"
proof -
  have q: "0 \<le> 500000 / real_of_int n" using assms by simp
  have le: "500000 / real_of_int n \<le> 500000" using assms by (simp add: divide_le_eq)
  have "\<not> double_overflow (500000 / real_of_int n)" using q le by (rule no_overflow)
  moreover have "py_int (double_round (500000 / real_of_int n)) = 500000 div n"
    using trunc_quotient(1) [OF assms] double_round_nonneg [OF q] by (simp add: py_int_nonneg)
  ultimately show ?thesis using assms by (simp add: run_setargs_clock_def Let_def)
qed

text \<open>
  C5, as stated, at a request of 30000 Hz: the resolved divisor is 15 and the resolved
  frequency is 31250 Hz, which exceeds the request.
\<close>

theorem C5_counterexample:
  "run_setargs_clock 30000 = Inr (15, 31250) \<and> \<not> (31250 \<le> (30000::real))"
proof -
  have "double_round (of_int 31250) = of_int 31250" by (intro double_round_int) simp_all
  then have "double_round 31250 = 31250" by simp
  then show ?thesis using run_setargs_clock_int [of 30000] by simp
qed

text \<open>
  C5, amended: for every requested frequency \<open>fs > 0\<close> whose quotient
  \<open>500000 / fs\<close> is a finite double (otherwise \<open>OverflowError\<close> is raised), the
  resolved divisor is \<open>max (int (500000 / fs) - 1) 9\<close>, at least 9, and the resolved
  frequency is the double \<open>500000 / (clockdiv + 1)\<close>, which never exceeds 50000 Hz. For
  an integer request \<open>n\<close> the divisor is \<open>max (500000 div n - 1) 9\<close>; if the request is
  at most 50000 Hz, it is the greatest divisor from 9 on whose derived frequency
  \<open>500000 / (d + 1)\<close> is not below the request, so that the resolved frequency is at
  least the request.
\<close>

theorem C5_clockdiv_resolution:
  assumes "0 < fs"
  shows "(double_overflow (500000 / fs) \<longrightarrow> run_setargs_clock fs = Inl OverflowError)
       \<and> (\<not> double_overflow (500000 / fs) \<longrightarrow>
            (\<exists>cd f. run_setargs_clock fs = Inr (cd, f)
               \<and> cd = max (\<lfloor>double_round (500000 / fs)\<rfloor> - 1) 9 \<and> 9 \<le> cd
               \<and> f = double_round (500000 / (real_of_int cd + 1)) \<and> f \<le> 50000))
       \<and> (\<forall>n. fs = real_of_int n \<longrightarrow>
            (\<exists>cd f. run_setargs_clock fs = Inr (cd, f) \<and> cd = max (500000 div n - 1) 9
               \<and> (n \<le> 50000 \<longrightarrow>
                     fs \<le> f
                     \<and> (\<forall>d. 9 \<le> d \<and> fs \<le> 500000 / (real_of_int d + 1) \<longrightarrow> d \<le> cd))))"
proof -
  have q: "0 \<le> 500000 / fs" using assms by simp
  have a: "double_overflow (500000 / fs) \<longrightarrow> run_setargs_clock fs = Inl OverflowError"
    using assms by (simp add: run_setargs_clock_def)
  have b: "\<not> double_overflow (500000 / fs) \<longrightarrow>
            (\<exists>cd f. run_setargs_clock fs = Inr (cd, f)
               \<and> cd = max (\<lfloor>double_round (500000 / fs)\<rfloor> - 1) 9 \<and> 9 \<le> cd
               \<and> f = double_round (500000 / (real_of_int cd + 1)) \<and> f \<le> 50000)"
  proof
    assume no: "\<not> double_overflow (500000 / fs)"
    define cd where "cd = max (\<lfloor>double_round (500000 / fs)\<rfloor> - 1) 9"
    have cd9: "9 \<le> cd" by (simp add: cd_def)
    have "run_setargs_clock fs = Inr (cd, double_round (500000 / (real_of_int cd + 1)))"
      using assms no double_round_nonneg [OF q]
      by (simp add: run_setargs_clock_def Let_def py_int_nonneg cd_def)
    then show "\<exists>cd f. run_setargs_clock fs = Inr (cd, f)
               \<and> cd = max (\<lfloor>double_round (500000 / fs)\<rfloor> - 1) 9 \<and> 9 \<le> cd
               \<and> f = double_round (500000 / (real_of_int cd + 1)) \<and> f \<le> 50000"
      using cd9 resolved_le_50000 [OF cd9] cd_def by blast
  qed
  have c: "\<exists>cd f. run_setargs_clock fs = Inr (cd, f) \<and> cd = max (500000 div n - 1) 9
               \<and> (n \<le> 50000 \<longrightarrow>
                     fs \<le> f
                     \<and> (\<forall>d. 9 \<le> d \<and> fs \<le> 500000 / (real_of_int d + 1) \<longrightarrow> d \<le> cd))"
    if fs: "fs = real_of_int n" for n
  proof -
    have n1: "1 \<le> n" using assms fs by simp
    define cd where "cd = max (500000 div n - 1) 9"
    define f where "f = double_round (500000 / (real_of_int cd + 1))"
    have run: "run_setargs_clock fs = Inr (cd, f)"
      unfolding fs cd_def f_def by (rule run_setargs_clock_int [OF n1])
    have low: "fs \<le> f \<and> (\<forall>d. 9 \<le> d \<and> fs \<le> 500000 / (real_of_int d + 1) \<longrightarrow> d \<le> cd)"
      if le: "n \<le> 50000"
    proof -
      have "500000 div 50000 \<le> 500000 div n" using n1 le by (intro zdiv_mono2) simp_all
      then have m10: "10 \<le> 500000 div n" by simp
      then have cdeq: "cd = 500000 div n - 1" by (simp add: cd_def)
      have fl: "\<lfloor>500000 / real_of_int n\<rfloor> = 500000 div n"
        using floor_divide_of_int_eq [of 500000 n] by simp
      have "real_of_int (500000 div n) \<le> 500000 / real_of_int n"
        using fl of_int_floor_le [of "500000 / real_of_int n"] by simp
      then have "real_of_int cd + 1 \<le> 500000 / real_of_int n" using cdeq by simp
      then have "(real_of_int cd + 1) * real_of_int n \<le> 500000"
        using n1 by (simp add: le_divide_eq)
      moreover have pos: "0 < real_of_int cd + 1" using m10 cdeq by simp
      ultimately have ex: "real_of_int n \<le> 500000 / (real_of_int cd + 1)"
        by (simp add: le_divide_eq mult.commute)
      have "double_round (of_int n) \<le> double_round (500000 / (real_of_int cd + 1))"
        using ex n1 by (intro double_round_mono) simp_all
      moreover have "double_round (of_int n) = of_int n"
        using n1 le by (intro double_round_int) simp_all
      ultimately have a: "fs \<le> f" by (simp add: fs f_def)
      have b: "d \<le> cd" if d: "9 \<le> d" "fs \<le> 500000 / (real_of_int d + 1)" for d
      proof -
        have "0 < real_of_int d + 1" using d(1) by simp
        then have "real_of_int n * (real_of_int d + 1) \<le> 500000"
          using d(2) by (simp add: le_divide_eq fs)
        then have "real_of_int (d + 1) \<le> 500000 / real_of_int n"
          using n1 by (simp add: le_divide_eq mult.commute)
        then have "d + 1 \<le> \<lfloor>500000 / real_of_int n\<rfloor>" by (simp only: le_floor_iff)
        then show ?thesis using fl cdeq by simp
      qed
      show ?thesis using a b by blast
    qed
    show ?thesis using run low cd_def by blast
  qed
  show ?thesis using a b c by blast
qed

theorem C5_clockdiv_resolution_witness:
  "(0::real) < 30000 \<and> \<not> double_overflow (500000 / 30000)
   \<and> run_setargs_clock 30000 = Inr (15, 31250)
   \<and> (30000::real) \<le> 50000 \<and> (30000::real) \<le> 31250"
proof -
  have "double_round (of_int 31250) = of_int 31250" by (intro double_round_int) simp_all
  then have r: "double_round 31250 = 31250" by simp
  have no: "\<not> double_overflow (500000 / 30000)" by (rule no_overflow) simp_all
  show ?thesis
    using C5_clockdiv_resolution [of 30000] run_setargs_clock_int [of 30000] r no by simp
qed

text \<open>
  The request 45454.545454545456 Hz, the double that the resolution of 44100 Hz gives and
  that the client sends back: the quotient rounds to 11 and the divisor is 10. And 0.3 s
  at 50000 Hz in buffers of 1000: the product rounds to 15000 and the count is 15.
\<close>

lemma clock_of_resolved_44100:
  "run_setargs_clock (3123612578909091 / 68719476736)
     = Inr (10, 3123612578909091 / 68719476736)"
proof -
  let ?fs = "3123612578909091 / 68719476736 :: real"
  have q: "double_round (500000 / ?fs) = 11"
    using double_round_eval [of 3 "500000 / ?fs"]
    by (simp add: round_half_even_def powr_minus Let_def)
  have f: "double_round (500000 / 11) = ?fs"
    using double_round_eval [of 15 "500000 / 11"]
    by (simp add: round_half_even_def powr_minus Let_def)
  have "\<not> double_overflow (500000 / ?fs)" by (rule no_overflow) simp_all
  then show ?thesis using q f by (simp add: run_setargs_clock_def py_int_def Let_def)
qed

lemma count_of_three_tenths:
  "run_setargs_transfers_count (5404319552844595 / 18014398509481984) 50000 1000 = Inr 15"
proof -
  let ?d = "5404319552844595 / 18014398509481984 :: real"
  have q: "double_round (?d * 50000) = 15000"
    using double_round_eval [of 13 "?d * 50000"]
    by (simp add: round_half_even_def powr_minus Let_def)
  have "\<not> double_overflow (?d * 50000)" by (rule no_overflow) simp_all
  then show ?thesis using q by (simp add: run_setargs_transfers_count_def)
qed

text \<open>
  And 99 s at a request of 40000 Hz in buffers of 250: the resolved frequency is the
  double 41666.666666666664, its product with 99 rounds below 4125000 and the count is
  16499.
\<close>

lemma count_of_99_seconds:
  "run_setargs_clock 40000 = Inr (11, 5726623061333333 / 137438953472)
   \<and> run_setargs_transfers_count 99 (5726623061333333 / 137438953472) 250 = Inr 16499"
proof -
  let ?fs = "5726623061333333 / 137438953472 :: real"
  have f: "double_round (500000 / 12) = ?fs"
    using double_round_eval [of 15 "500000 / 12"]
    by (simp add: round_half_even_def powr_minus Let_def)
  have c: "run_setargs_clock 40000 = Inr (11, ?fs)"
    using run_setargs_clock_int [of 40000] f by simp
  have q: "double_round (99 * ?fs) = 8858370047999999 / 2147483648"
    using double_round_eval [of 21 "99 * ?fs"]
    by (simp add: round_half_even_def powr_minus Let_def)
  have no: "\<not> double_overflow (99 * ?fs)"
    unfolding double_overflow_def q by simp
  have fl: "\<lfloor>double_round (99 * ?fs) / 250\<rfloor> = 16499"
    unfolding q by simp
  have "run_setargs_transfers_count 99 ?fs 250 = Inr 16499"
    using no fl by (simp add: run_setargs_transfers_count_def)
  then show ?thesis using c by simp
qed

section \<open>Facts about the transfer engine\<close>

lemma filter_update_False:
  "i < length xs \<Longrightarrow> xs ! i \<Longrightarrow> Suc (length (filter (\<lambda>b. b) (xs[i := False]))) = length (filter (\<lambda>b. b) xs)"
proof (induction xs arbitrary: i)
  case Nil then show ?case by simp
next
  case (Cons x xs) then show ?case by (cases i) auto
qed

lemma filter_update_True:
  "length (filter (\<lambda>b. b) (xs[i := True])) \<le> Suc (length (filter (\<lambda>b. b) xs))"
proof (induction xs arbitrary: i)
  case Nil then show ?case by simp
next
  case (Cons x xs) then show ?case by (cases i) (auto simp: le_SucI)
qed

lemma resubmit_proj [simp]:
  "signal_q (resubmit tr s) = signal_q s"
  "downstream (resubmit tr s) = downstream s"
  "transfer_index (resubmit tr s) = transfer_index s"
  "restart_request (resubmit tr s) = restart_request s"
  "restart_attempt (resubmit tr s) = restart_attempt s"
  "fx3_resets (resubmit tr s) = fx3_resets s"
  "length (submitted (resubmit tr s)) = length (submitted s)"
  by (simp_all add: resubmit_def)

lemma resubmit_recording: "recording (resubmit tr s) \<Longrightarrow> recording s"
  by (simp add: resubmit_def split: if_splits)

lemma resubmit_not_recording: "\<not> recording s \<Longrightarrow> resubmit tr s = s"
  by (simp add: resubmit_def)

lemma resubmit_pending: "pending (resubmit tr s) \<le> Suc (pending s)"
  by (simp add: resubmit_def pending_def filter_update_True)

lemma deliver_proj [simp]:
  "downstream (deliver p tr s) = downstream s @ [emitted_frame p tr]"
  "transfer_index (deliver p tr s) = transfer_index s"
  "restart_request (deliver p tr s) = restart_request s"
  "restart_attempt (deliver p tr s) = restart_attempt s"
  "fx3_resets (deliver p tr s) = fx3_resets s"
  "submitted (deliver p tr s) = submitted s"
  by (simp_all add: deliver_def emitted_frame_def queue_frame_def Let_def
        split: option.splits prod.splits callback_result.splits)


lemma deliver_recording: "recording (deliver p tr s) \<Longrightarrow> recording s"
  by (simp add: deliver_def queue_frame_def Let_def
        split: option.splits prod.splits callback_result.splits if_splits)

lemma deliver_pending [simp]: "pending (deliver p tr s) = pending s"
  by (simp add: pending_def)

lemma dispatch_proj [simp]:
  "downstream (dispatch p tr s) = downstream s @ [emitted_frame p tr]"
  "transfer_index (dispatch p tr s) = transfer_index s + 1"
  "restart_request (dispatch p tr s) = restart_request s"
  "restart_attempt (dispatch p tr s) = restart_attempt s"
  "fx3_resets (dispatch p tr s) = fx3_resets s"
  "length (submitted (dispatch p tr s)) = length (submitted s)"
  by (simp_all add: dispatch_def Let_def)


lemma dispatch_recording: "recording (dispatch p tr s) \<Longrightarrow> recording s"
  by (auto simp: dispatch_def Let_def split: if_splits dest: resubmit_recording deliver_recording)

lemma dispatch_recording_index:
  "recording (dispatch p tr s) \<Longrightarrow> transfers_count p \<noteq> 0 \<Longrightarrow> transfer_index s + 1 \<le> transfers_count p"
  by (auto simp: dispatch_def Let_def split: if_splits)

lemma dispatch_pending: "pending (dispatch p tr s) \<le> Suc (pending s)"
proof -
  have "pending (resubmit tr (deliver p tr s)) \<le> Suc (pending s)"
    using resubmit_pending [of tr "deliver p tr s"] by simp
  then show ?thesis by (simp add: dispatch_def Let_def pending_def)
qed

lemma dispatch_pending_stopped: "\<not> recording s \<Longrightarrow> pending (dispatch p tr s) = pending s"
proof -
  assume "\<not> recording s"
  then have "\<not> recording (deliver p tr s)" using deliver_recording by blast
  then have "resubmit tr (deliver p tr s) = deliver p tr s" by (rule resubmit_not_recording)
  then show ?thesis by (simp add: dispatch_def Let_def pending_def)
qed


lemma pending_le: "pending s \<le> length (submitted s)"
  by (simp add: pending_def)

lemma count_inv_stop:
  "count_inv p s \<Longrightarrow> count_inv p (s\<lparr>recording := False\<rparr>)"
  using pending_le [of s] by (auto simp: count_inv_def pending_def)

lemma count_inv_resubmit:
  assumes "count_inv p s"
  shows "count_inv p (resubmit tr s)"
proof (cases "recording s")
  case False then show ?thesis using assms by (simp add: resubmit_not_recording)
next
  case True
  have "pending (resubmit tr s) \<le> length (submitted s)"
    using pending_le [of "resubmit tr s"] by simp
  then show ?thesis using assms True
    by (auto simp: count_inv_def dest: resubmit_recording)
qed

lemma count_inv_restart_request:
  "count_inv p s \<Longrightarrow> count_inv p (s\<lparr>restart_request := True\<rparr>)"
  by (simp add: count_inv_def pending_def)

lemma count_inv_counter_fields:
  "count_inv p (s\<lparr>previous_counter_state := a, counter_state := b, restart_attempt := c\<rparr>) = count_inv p s"
  by (simp add: count_inv_def pending_def)

lemma count_inv'_weaken: "count_inv' p s \<Longrightarrow> count_inv p s"
  by (auto simp: count_inv_def count_inv'_def)

lemma count_inv_complete:
  assumes "count_inv p s" "i < length (submitted s)" "submitted s ! i"
  shows "count_inv' p (s\<lparr>submitted := (submitted s)[i := False]\<rparr>)"
proof -
  have "Suc (pending (s\<lparr>submitted := (submitted s)[i := False]\<rparr>)) = pending s"
    using assms(2,3) by (simp add: pending_def filter_update_False)
  then show ?thesis using assms(1) pending_le [of s]
    by (auto simp: count_inv_def count_inv'_def)
qed

lemma count_inv'_counter_fields:
  "count_inv' p (s\<lparr>previous_counter_state := a, counter_state := b, restart_attempt := c\<rparr>) = count_inv' p s"
  by (simp add: count_inv'_def pending_def)

lemma count_inv_dispatch:
  assumes "count_inv' p s" "transfers_count p \<noteq> 0"
  shows "count_inv p (dispatch p tr s)"
proof (cases "recording s")
  case False
  then have "\<not> recording (dispatch p tr s)" using dispatch_recording by blast
  then show ?thesis using assms False dispatch_pending_stopped [OF False, of p tr]
    by (auto simp: count_inv_def count_inv'_def)
next
  case True
  have pend: "pending (dispatch p tr s) \<le> buffers_number p"
    using dispatch_pending [of p tr s] assms(1) by (simp add: count_inv'_def)
  show ?thesis
  proof (cases "recording (dispatch p tr s)")
    case True
    then show ?thesis using assms dispatch_recording_index [OF True assms(2)]
      by (auto simp: count_inv_def count_inv'_def)
  next
    case False
    then show ?thesis using assms True pend
      by (auto simp: count_inv_def count_inv'_def)
  qed
qed

lemma count_inv_processRun:
  assumes "count_inv' p s" "transfers_count p \<noteq> 0" "processRun p s tr = Inr s'"
  shows "count_inv p s'"
proof -
  have base: "count_inv p s" using assms(1) by (rule count_inv'_weaken)
  show ?thesis
    using assms(3) base assms(1,2)
    by (auto simp: processRun_def count_inv_stop count_inv_resubmit count_inv_restart_request
          count_inv_dispatch count_inv'_counter_fields split: if_splits)
qed

lemma count_inv_handleEvents:
  assumes "count_inv p s" "transfers_count p \<noteq> 0"
  shows "count_inv p (handleEvents p s ev)"
proof (cases ev)
  case Interrupt
  then show ?thesis using assms by (simp add: handleEvents_def count_inv_stop)
next
  case (Completion tr)
  show ?thesis
  proof (cases "t_id tr < length (submitted s) \<and> submitted s ! t_id tr")
    case False
    then show ?thesis using assms Completion by (auto simp: handleEvents_def)
  next
    case True
    let ?s0 = "s\<lparr>submitted := (submitted s)[t_id tr := False]\<rparr>"
    have c: "count_inv' p ?s0" using count_inv_complete assms(1) True by blast
    show ?thesis
    proof (cases "processRun p ?s0 tr")
      case (Inl e)
      then show ?thesis using True Completion count_inv_stop [OF count_inv'_weaken [OF c]]
        by (simp add: handleEvents_def Let_def)
    next
      case (Inr s')
      then show ?thesis using True Completion count_inv_processRun [OF c assms(2) Inr]
        by (simp add: handleEvents_def Let_def)
    qed
  qed
qed

lemma count_inv_restart_round:
  assumes "count_inv p s"
  shows "count_inv p (restart_round s)"
proof -
  have "int (pending s) \<le> int (buffers_number p)"
    using assms pending_le [of s] by (simp add: count_inv_def)
  moreover have "pending (s\<lparr>restart_attempt := a, recording := False, restart_request := False\<rparr>) = pending s" for a
    by (simp add: pending_def)
  ultimately show ?thesis using assms
    by (auto simp: restart_round_def count_inv_def Let_def)
qed

lemma count_inv_loop_step:
  "count_inv p s \<Longrightarrow> transfers_count p \<noteq> 0 \<Longrightarrow> count_inv p (loop_step p s ev)"
  by (simp add: loop_step_def Let_def count_inv_handleEvents count_inv_restart_round)

lemma count_inv_transfer_loop:
  "count_inv p s \<Longrightarrow> transfers_count p \<noteq> 0 \<Longrightarrow> count_inv p (transfer_loop p s evs)"
  by (induction evs arbitrary: s) (simp_all add: count_inv_loop_step)

lemma count_inv_loop_start:
  "1 \<le> transfers_count p \<Longrightarrow> count_inv p (loop_start p a q h)"
  by (simp add: count_inv_def loop_start_def)

lemma count_inv_bound:
  assumes "count_inv p s" "0 \<le> transfers_count p"
  shows "int (length (downstream s)) \<le> transfers_count p + 1 + int (buffers_number p)"
  using assms by (cases "recording s") (auto simp: count_inv_def)

section \<open>The number of frames of a session\<close>

text \<open>
  With a transfer count of 0 the count never ends the recording: the flag after a frame
  is the one that the hand-over and the new submission leave.
\<close>

lemma dispatch_unbounded:
  "transfers_count p = 0 \<Longrightarrow>
     recording (dispatch p tr s) = recording (resubmit tr (deliver p tr s))"
  by (simp add: dispatch_def Let_def)

lemma double_round_50000: "double_round 50000 = 50000"
proof -
  have "double_round (of_int 50000) = of_int 50000" by (intro double_round_int) simp_all
  then show ?thesis by simp
qed

text \<open>
  C2, as stated, for one second at 50000 Hz in buffers of 25000 samples with two
  transfers in flight: the transfer count and the claimed bound
  \<open>\<lceil>duration * fs / buffer_length\<rceil>\<close> are both 2, and the engine hands five frames
  downstream when the device completes five transfers.
\<close>

theorem C2_counterexample:
  "run_setargs_transfers_count 1 50000 25000 = Inr 2
   \<and> \<lceil>(1 * 50000) / (25000::real)\<rceil> = 2
   \<and> length (downstream (transfer_loop p2 (loop_start p2 0 [] h5_class_defaults)
        [Completion (tr2 0), Completion (tr2 1), Completion (tr2 0), Completion (tr2 1),
         Completion (tr2 0)])) = 5
   \<and> \<not> int (length (downstream (transfer_loop p2 (loop_start p2 0 [] h5_class_defaults)
        [Completion (tr2 0), Completion (tr2 1), Completion (tr2 0), Completion (tr2 1),
         Completion (tr2 0)]))) \<le> \<lceil>(1 * 50000) / (25000::real)\<rceil>"
  using double_round_50000 no_overflow [of 50000]
  by (simp add: run_setargs_transfers_count_def loop_step_def handleEvents_def processRun_def
      loop_start_def p2_def tr2_def dispatch_def deliver_def resubmit_def queue_frame_def
      restart_round_def buffer_words_length_def Let_def numeral_2_eq_2)

text \<open>
  C2, amended: for every live session whose transfer count, the floor of the double
  product \<open>duration * fs\<close> over the buffer length, is at least 1, whatever the device
  and the controlling thread do, the number of frames handed downstream over the whole
  session is at most that count, plus one, plus the number of transfers in flight; the
  frame that takes the transfer index past the count clears the recording flag, and
  from then on no transfer is submitted again.
\<close>

theorem C2_emitted_frames_bound:
  assumes "run_setargs_transfers_count duration (sampling_frequency p) (buffer_length p)
             = Inr (transfers_count p)"
      and "1 \<le> transfers_count p"
  shows "int (length (downstream (transfer_loop p (loop_start p attempt q h) evs)))
           \<le> \<lfloor>double_round (duration * sampling_frequency p) / real (buffer_length p)\<rfloor> + 1
               + int (buffers_number p)
         \<and> (transfers_count p < transfer_index s + 1 \<longrightarrow> \<not> recording (dispatch p tr s))
         \<and> (\<not> recording s \<longrightarrow> resubmit tr s = s)"
proof -
  have tc: "transfers_count p
              = \<lfloor>double_round (duration * sampling_frequency p) / real (buffer_length p)\<rfloor>"
    using assms(1) by (simp add: run_setargs_transfers_count_def split: if_splits)
  have "count_inv p (transfer_loop p (loop_start p attempt q h) evs)"
    using assms(2) by (intro count_inv_transfer_loop count_inv_loop_start) auto
  then have "int (length (downstream (transfer_loop p (loop_start p attempt q h) evs)))
               \<le> transfers_count p + 1 + int (buffers_number p)"
    using assms(2) by (intro count_inv_bound) auto
  moreover have "transfers_count p < transfer_index s + 1 \<longrightarrow> \<not> recording (dispatch p tr s)"
    using assms(2) by (auto simp: dispatch_def Let_def)
  ultimately show ?thesis using tc by (simp add: resubmit_not_recording)
qed

theorem C2_emitted_frames_bound_witness:
  "run_setargs_transfers_count 1 (sampling_frequency p2) (buffer_length p2) = Inr (transfers_count p2)
   \<and> 1 \<le> transfers_count p2
   \<and> int (length (downstream (transfer_loop p2 (loop_start p2 0 [] h5_class_defaults)
        [Completion (tr2 0), Completion (tr2 1), Completion (tr2 0), Completion (tr2 1),
         Completion (tr2 0), Completion (tr2 1)]))) \<le> 2 + 1 + 2"
  using C2_emitted_frames_bound [of 1 p2 0 "[]" h5_class_defaults
          "[Completion (tr2 0), Completion (tr2 1), Completion (tr2 0), Completion (tr2 1),
            Completion (tr2 0), Completion (tr2 1)]"]
        double_round_50000 no_overflow [of 50000]
  by (simp add: run_setargs_transfers_count_def p2_def)

section \<open>The counter row of the frames\<close>

lemma upt3: "[0..<3] = [0,1,2]" "[0..<2] = [0,1]"
  by (simp_all add: upt_rec)

text \<open>
  C3, as stated, with the counter on and its row kept: the transfer \<open>tr3\<close>, whose counter
  values are 0, 7, 2, passes the control (2 - 0 + 1 = 3) and is handed downstream, and in
  that frame the counter at sample 1 minus the counter at sample 0 is 7, not 1.
\<close>

theorem C3_counterexample:
  "counter p3
   \<and> downstream (transfer_loop p3 (loop_start p3 0 [] h5_class_defaults) [Completion tr3])
        = [[[0, 7, 2], [0, 0, 0]]]
   \<and> [[0, 7, 2], [0, 0, 0 :: 32 word]] ! 0 ! 1 - [[0, 7, 2], [0, 0, 0]] ! 0 ! 0 \<noteq> 1"
  by (simp add: loop_step_def handleEvents_def processRun_def loop_start_def p3_def tr3_def
        dispatch_def deliver_def resubmit_def queue_frame_def restart_round_def
        buffer_words_length_def ctrl_buffer_length_def emitted_frame_def reshape_T_def upt3
        Let_def)

lemma emitted_frame_endpoints:
  assumes "\<not> counter_skip p" "buffer_words_length p \<noteq> 0"
    "ctrl_buffer_length p data = int (buffer_length p)" "t_data tr = data"
  shows "endpoints_ok p (emitted_frame p tr)"
proof -
  have pos: "0 < channels_number p" "0 < buffer_length p"
    using assms(2) by (auto simp: buffer_words_length_def)
  have idx: "(buffer_length p - 1) * channels_number p
               = buffer_words_length p - channels_number p"
    by (simp add: buffer_words_length_def diff_mult_distrib2 mult.commute)
  have row0: "emitted_frame p tr ! 0 = map (\<lambda>k. data ! (k * channels_number p)) [0..<buffer_length p]"
    using assms(1,4) pos by (simp add: emitted_frame_def reshape_T_def Let_def)
  have "emitted_frame p tr ! 0 ! (buffer_length p - 1) = data ! (buffer_words_length p - channels_number p)"
    using pos idx by (simp add: row0)
  moreover have "emitted_frame p tr ! 0 ! 0 = data ! 0"
    using pos by (simp add: row0)
  moreover have "length (emitted_frame p tr) = channels_number p"
    using assms(1) by (simp add: emitted_frame_def reshape_T_def Let_def)
  moreover have "list_all (\<lambda>r. length r = buffer_length p) (emitted_frame p tr)"
    using assms(1) by (simp add: emitted_frame_def reshape_T_def Let_def list_all_iff)
  ultimately show ?thesis using assms(3) pos
    by (simp add: endpoints_ok_def ctrl_buffer_length_def)
qed

lemma frames_inv_fields [simp]:
  "frames_inv p (s\<lparr>recording := r\<rparr>) = frames_inv p s"
  "frames_inv p (s\<lparr>restart_request := b\<rparr>) = frames_inv p s"
  "frames_inv p (s\<lparr>restart_attempt := n\<rparr>) = frames_inv p s"
  "frames_inv p (s\<lparr>counter_state := c\<rparr>) = frames_inv p s"
  "frames_inv p (s\<lparr>previous_counter_state := c\<rparr>) = frames_inv p s"
  "frames_inv p (s\<lparr>submitted := xs\<rparr>) = frames_inv p s"
  "frames_inv p (s\<lparr>fx3_resets := k\<rparr>) = frames_inv p s"
  "frames_inv p (resubmit tr s) = frames_inv p s"
  by (simp_all add: frames_inv_def)

lemma frames_inv_processRun:
  assumes "counter p" "\<not> counter_skip p" "frames_inv p s" "processRun p s tr = Inr s'"
  shows "frames_inv p s'"
proof -
  have d: "frames_inv p (dispatch p tr s0)"
    if "frames_inv p s0" "buffer_words_length p \<noteq> 0"
       "ctrl_buffer_length p (t_data tr) = int (buffer_length p)" for s0
    using that emitted_frame_endpoints [OF assms(2) that(2) that(3) refl]
    by (simp add: frames_inv_def)
  show ?thesis using assms(4,1,3)
    by (auto simp: processRun_def d split: if_splits)
qed

lemma frames_inv_handleEvents:
  assumes "counter p" "\<not> counter_skip p" "frames_inv p s"
  shows "frames_inv p (handleEvents p s ev)"
proof (cases ev)
  case Interrupt then show ?thesis using assms by (simp add: handleEvents_def)
next
  case (Completion tr)
  let ?s0 = "s\<lparr>submitted := (submitted s)[t_id tr := False]\<rparr>"
  have s0: "frames_inv p ?s0" using assms(3) by simp
  show ?thesis
  proof (cases "processRun p ?s0 tr")
    case (Inl e) then show ?thesis using Completion assms(3) by (simp add: handleEvents_def Let_def)
  next
    case (Inr s')
    then show ?thesis using Completion assms(3) frames_inv_processRun [OF assms(1,2) s0 Inr]
      by (simp add: handleEvents_def Let_def)
  qed
qed

lemma frames_inv_restart_round: "frames_inv p (restart_round s) = frames_inv p s"
  by (simp add: restart_round_def Let_def)

lemma frames_inv_transfer_loop:
  "counter p \<Longrightarrow> \<not> counter_skip p \<Longrightarrow> frames_inv p s \<Longrightarrow> frames_inv p (transfer_loop p s evs)"
  by (induction evs arbitrary: s)
     (simp_all add: loop_step_def Let_def frames_inv_handleEvents frames_inv_restart_round)

text \<open>
  C3, amended: for every session with the counter on and its row kept
  (\<open>counter_skip\<close> off), whatever words the device delivers, every frame handed
  downstream has its counter in row 0 and satisfies
  \<open>frame[0, buffer_length - 1] - frame[0, 0] = buffer_length - 1\<close> (as a 32-bit
  difference): the control constrains the first and the last sample only.
\<close>

theorem C3_counter_endpoints:
  assumes "counter p" "\<not> counter_skip p"
  shows "\<forall>f \<in> set (downstream (transfer_loop p (loop_start p attempt q h) evs)).
           length f = channels_number p \<and> 0 < buffer_length p
           \<and> sint (f ! 0 ! (buffer_length p - 1) - f ! 0 ! 0) = int (buffer_length p) - 1"
proof -
  have "frames_inv p (loop_start p attempt q h)" by (simp add: frames_inv_def loop_start_def)
  then have "frames_inv p (transfer_loop p (loop_start p attempt q h) evs)"
    using assms by (intro frames_inv_transfer_loop)
  then show ?thesis by (auto simp: frames_inv_def list_all_iff endpoints_ok_def)
qed

theorem C3_counter_endpoints_witness:
  "counter p3 \<and> \<not> counter_skip p3
   \<and> [[0, 7, 2], [0, 0, 0]] \<in> set (downstream (transfer_loop p3 (loop_start p3 0 [] h5_class_defaults) [Completion tr3]))
   \<and> sint ([[0, 7, 2], [0, 0, 0 :: 32 word]] ! 0 ! (buffer_length p3 - 1) - [[0, 7, 2], [0, 0, 0]] ! 0 ! 0)
        = int (buffer_length p3) - 1"
proof -
  have d: "downstream (transfer_loop p3 (loop_start p3 0 [] h5_class_defaults) [Completion tr3])
             = [[[0, 7, 2], [0, 0, 0]]]"
    by (simp add: loop_step_def handleEvents_def processRun_def loop_start_def p3_def tr3_def
          dispatch_def deliver_def resubmit_def queue_frame_def restart_round_def
          buffer_words_length_def ctrl_buffer_length_def emitted_frame_def reshape_T_def upt3 Let_def)
  have c: "counter p3 \<and> \<not> counter_skip p3" by (simp add: p3_def)
  show ?thesis
    using C3_counter_endpoints [of p3 0 "[]" h5_class_defaults "[Completion tr3]"] c d
    by simp
qed

section \<open>Misalignment and restart\<close>

lemma restart_round_retry:
  assumes "restart_request s" "recording s" "restart_attempt s + 1 < DEFAULT_MAX_RETRY_ATTEMPT"
  shows "restart_round s =
           s\<lparr>restart_attempt := restart_attempt s + 1, fx3_resets := fx3_resets s + 1,
             restart_request := False, submitted := replicate (length (submitted s)) True\<rparr>"
  using assms by (auto simp: restart_round_def Let_def)

lemma restart_round_fatal:
  assumes "restart_request s" "recording s" "DEFAULT_MAX_RETRY_ATTEMPT \<le> restart_attempt s + 1"
  shows "restart_round s =
           s\<lparr>restart_attempt := restart_attempt s + 1, recording := False,
             restart_request := False\<rparr>"
  using assms by (auto simp: restart_round_def Let_def DEFAULT_MAX_RETRY_ATTEMPT_def)

lemma misaligned_rounds:
  assumes "recording s" "restart_attempt s = 0" "k < DEFAULT_MAX_RETRY_ATTEMPT"
  shows "recording ((misaligned_round ^^ k) s)
         \<and> restart_attempt ((misaligned_round ^^ k) s) = k
         \<and> fx3_resets ((misaligned_round ^^ k) s) = fx3_resets s + k
         \<and> length (submitted ((misaligned_round ^^ k) s)) = length (submitted s)
         \<and> (0 < k \<longrightarrow> submitted ((misaligned_round ^^ k) s)
                          = replicate (length (submitted s)) True)"
  using assms(3)
proof (induction k)
  case 0 then show ?case using assms by simp
next
  case (Suc k)
  let ?t = "((misaligned_round ^^ k) s)\<lparr>restart_request := True\<rparr>"
  have ih: "recording ?t" "restart_attempt ?t = k" "fx3_resets ?t = fx3_resets s + k"
      "length (submitted ?t) = length (submitted s)"
    using Suc by simp_all
  have "restart_round ?t = ?t\<lparr>restart_attempt := restart_attempt ?t + 1, fx3_resets := fx3_resets ?t + 1,
             restart_request := False, submitted := replicate (length (submitted ?t)) True\<rparr>"
    using ih Suc.prems by (intro restart_round_retry) simp_all
  moreover have "(misaligned_round ^^ Suc k) s = restart_round ?t"
    using misaligned_round_def [of "(misaligned_round ^^ k) s"] by simp
  ultimately show ?case using ih by simp
qed

lemma misaligned_rounds_fatal:
  assumes "recording s" "restart_attempt s = 0"
  shows "\<not> recording ((misaligned_round ^^ DEFAULT_MAX_RETRY_ATTEMPT) s)
         \<and> fx3_resets ((misaligned_round ^^ DEFAULT_MAX_RETRY_ATTEMPT) s) = fx3_resets s + 4"
proof -
  let ?t = "((misaligned_round ^^ 4) s)\<lparr>restart_request := True\<rparr>"
  have ih: "recording ?t" "restart_attempt ?t = 4" "fx3_resets ?t = fx3_resets s + 4"
    using misaligned_rounds [OF assms, of 4] by (simp_all add: DEFAULT_MAX_RETRY_ATTEMPT_def)
  have "restart_round ?t = ?t\<lparr>restart_attempt := restart_attempt ?t + 1, recording := False,
             restart_request := False\<rparr>"
    using ih by (intro restart_round_fatal) (simp_all add: DEFAULT_MAX_RETRY_ATTEMPT_def)
  moreover have "(misaligned_round ^^ DEFAULT_MAX_RETRY_ATTEMPT) s = restart_round ?t"
  proof -
    have "(misaligned_round ^^ 5) s = misaligned_round ((misaligned_round ^^ 4) s)"
      by (simp add: eval_nat_numeral)
    then show ?thesis
      by (simp only: DEFAULT_MAX_RETRY_ATTEMPT_def misaligned_round_def [of "(misaligned_round ^^ 4) s"])
  qed
  ultimately show ?thesis using ih by simp
qed

text \<open>
  C4: a completed, full transfer that fails the counter control sets the restart request
  and changes nothing else: no frame goes downstream and the transfer is not submitted
  again. The restart round then bumps the attempt counter, resets the FX3 and submits
  every transfer again, as long as the counter stays below \<open>DEFAULT_MAX_RETRY_ATTEMPT = 5\<close>;
  the fifth misalignment in a row clears the recording flag instead. A transfer that
  passes the control resets the attempt counter to 0.
\<close>

theorem C4_misalignment_restart:
  assumes "counter p" "\<not> restart_request s" "t_status tr = TRANSFER_COMPLETED"
      and "length (t_data tr) = buffer_words_length p" "buffer_words_length p \<noteq> 0"
      and "recording s0" "restart_attempt s0 = 0"
  shows "(ctrl_buffer_length p (t_data tr) \<noteq> int (buffer_length p) \<longrightarrow>
            processRun p s tr = Inr (s\<lparr>restart_request := True\<rparr>))
       \<and> (ctrl_buffer_length p (t_data tr) = int (buffer_length p) \<longrightarrow>
            (\<exists>s'. processRun p s tr = Inr s' \<and> restart_attempt s' = 0
                    \<and> downstream s' = downstream s @ [emitted_frame p tr]))
       \<and> (\<forall>k < DEFAULT_MAX_RETRY_ATTEMPT.
             recording ((misaligned_round ^^ k) s0)
             \<and> restart_attempt ((misaligned_round ^^ k) s0) = k
             \<and> fx3_resets ((misaligned_round ^^ k) s0) = fx3_resets s0 + k
             \<and> (0 < k \<longrightarrow> submitted ((misaligned_round ^^ k) s0)
                              = replicate (length (submitted s0)) True))
       \<and> \<not> recording ((misaligned_round ^^ DEFAULT_MAX_RETRY_ATTEMPT) s0)
       \<and> DEFAULT_MAX_RETRY_ATTEMPT = 5"
proof -
  have a: "ctrl_buffer_length p (t_data tr) \<noteq> int (buffer_length p) \<longrightarrow>
            processRun p s tr = Inr (s\<lparr>restart_request := True\<rparr>)"
    using assms(1-5) by (simp add: processRun_def)
  have b: "ctrl_buffer_length p (t_data tr) = int (buffer_length p) \<longrightarrow>
            (\<exists>s'. processRun p s tr = Inr s' \<and> restart_attempt s' = 0
                    \<and> downstream s' = downstream s @ [emitted_frame p tr])"
    using assms(1-5) by (simp add: processRun_def)
  have c: "\<forall>k < DEFAULT_MAX_RETRY_ATTEMPT.
             recording ((misaligned_round ^^ k) s0)
             \<and> restart_attempt ((misaligned_round ^^ k) s0) = k
             \<and> fx3_resets ((misaligned_round ^^ k) s0) = fx3_resets s0 + k
             \<and> (0 < k \<longrightarrow> submitted ((misaligned_round ^^ k) s0)
                              = replicate (length (submitted s0)) True)"
    using misaligned_rounds [OF assms(6,7)] by blast
  have d: "\<not> recording ((misaligned_round ^^ DEFAULT_MAX_RETRY_ATTEMPT) s0)"
    using misaligned_rounds_fatal [OF assms(6,7)] by blast
  show ?thesis using a b c d by (simp add: DEFAULT_MAX_RETRY_ATTEMPT_def)
qed

text \<open>
  The same on the recording loop of a session with two transfers: a gap is followed by
  one restart, a clean frame then goes downstream and resets the attempt counter, and
  five gaps in a row end the recording after four resets, with nothing sent downstream.
\<close>

lemma gap_then_restart:
  "transfer_loop p3 (loop_start p3 0 [] h5_class_defaults) gap_round
     = (loop_start p3 0 [] h5_class_defaults)\<lparr>restart_attempt := 1, fx3_resets := 1\<rparr>"
  by (simp add: loop_step_def handleEvents_def processRun_def loop_start_def p3_def tr4_def
        restart_round_def buffer_words_length_def ctrl_buffer_length_def gap_round_def
        numeral_2_eq_2 DEFAULT_MAX_RETRY_ATTEMPT_def Let_def)

lemma gap_then_clean_frame:
  "restart_attempt (transfer_loop p3 (loop_start p3 0 [] h5_class_defaults)
       (gap_round @ [Completion tr5])) = 0
   \<and> downstream (transfer_loop p3 (loop_start p3 0 [] h5_class_defaults)
       (gap_round @ [Completion tr5])) = [[[0, 1, 2], [0, 0, 0]]]"
  by (simp add: loop_step_def handleEvents_def processRun_def loop_start_def p3_def tr4_def
        tr5_def dispatch_def deliver_def resubmit_def queue_frame_def restart_round_def
        buffer_words_length_def ctrl_buffer_length_def emitted_frame_def reshape_T_def upt3
        gap_round_def numeral_2_eq_2 DEFAULT_MAX_RETRY_ATTEMPT_def Let_def)

lemma five_gaps_fatal:
  "transfer_loop p3 (loop_start p3 0 [] h5_class_defaults)
       (gap_round @ gap_round @ gap_round @ gap_round @ gap_round)
     = (loop_start p3 0 [] h5_class_defaults)
         \<lparr>recording := False, restart_attempt := 5, fx3_resets := 4,
          submitted := [False, False]\<rparr>"
  by (simp add: loop_step_def handleEvents_def processRun_def loop_start_def p3_def tr4_def
        restart_round_def buffer_words_length_def ctrl_buffer_length_def gap_round_def
        numeral_2_eq_2 DEFAULT_MAX_RETRY_ATTEMPT_def Let_def)

theorem C4_misalignment_restart_witness:
  "counter p3 \<and> \<not> restart_request (loop_start p3 0 [] h5_class_defaults)
   \<and> t_status tr4 = TRANSFER_COMPLETED \<and> length (t_data tr4) = buffer_words_length p3
   \<and> buffer_words_length p3 \<noteq> 0 \<and> recording (loop_start p3 0 [] h5_class_defaults)
   \<and> restart_attempt (loop_start p3 0 [] h5_class_defaults) = 0
   \<and> ctrl_buffer_length p3 (t_data tr4) \<noteq> int (buffer_length p3)
   \<and> processRun p3 (loop_start p3 0 [] h5_class_defaults) tr4
        = Inr ((loop_start p3 0 [] h5_class_defaults)\<lparr>restart_request := True\<rparr>)
   \<and> \<not> recording ((misaligned_round ^^ 5) (loop_start p3 0 [] h5_class_defaults))
   \<and> restart_attempt (transfer_loop p3 (loop_start p3 0 [] h5_class_defaults) gap_round) = 1
   \<and> restart_attempt (transfer_loop p3 (loop_start p3 0 [] h5_class_defaults)
         (gap_round @ [Completion tr5])) = 0
   \<and> \<not> recording (transfer_loop p3 (loop_start p3 0 [] h5_class_defaults)
         (gap_round @ gap_round @ gap_round @ gap_round @ gap_round))"
  using C4_misalignment_restart [of p3 "loop_start p3 0 [] h5_class_defaults" tr4
          "loop_start p3 0 [] h5_class_defaults"]
        gap_then_restart gap_then_clean_frame five_gaps_fatal
  by (simp add: p3_def tr4_def loop_start_def buffer_words_length_def ctrl_buffer_length_def
        DEFAULT_MAX_RETRY_ATTEMPT_def)

section \<open>The sample queue\<close>




lemma restart_round_signal_q [simp]: "signal_q (restart_round s) = signal_q s"
  by (simp add: restart_round_def Let_def)







section \<open>The H5 recorder\<close>

lemma h5_inv_fields [simp]:
  "h5_inv (h\<lparr>h5_buffer := b\<rparr>) = h5_inv h"
  "h5_inv (h\<lparr>h5_buffer_index := i\<rparr>) = h5_inv h"
  "h5_inv (h\<lparr>h5_timestamp := t\<rparr>) = h5_inv h"
  by (simp_all add: h5_inv_def)

lemma h5_init_file_proj [simp]:
  "h5_dataset_number (h5_init_file d h) = h5_dataset_number h"
  "h5_dataset_duration (h5_init_file d h) = h5_dataset_duration h"
  "h5_dataset_index (h5_init_file d h) = 0"
  "length (h5_files (h5_init_file d h)) = Suc (length (h5_files h))"
  "h5_datasets (h5_init_file d h) = h5_datasets h"
  by (simp_all add: h5_init_file_def h5_datasets_def)











section \<open>The name of a recorded file\<close>

text \<open>
  C9 fails on the code: the file created on 2022-05-07 at 22:42:00 is named
  \<open>mu5h-20220507-224200.h5\<close>, and the name of every file starts with \<open>mu5h-\<close>, not
  with \<open>muh5-\<close>.
\<close>

theorem C9_filename_prefix:
  "h5_filename date0 = ''mu5h-20220507-224200.h5''
   \<and> take 5 (h5_filename date) = ''mu5h-''
   \<and> take 5 (h5_filename date) \<noteq> ''muh5-''"
  by (simp add: h5_filename_def date0_def fmt02_def str_nat.simps Let_def)

section \<open>The bytes sent to a listener\<close>

text \<open>
  C1, as stated, for a frame of two channels and two samples and a mask that keeps both
  channels: the listener receives the words 1, 3, 2, 4, sample by sample, where the
  channel-major image of \<open>frame[M, :]\<close> is 1, 2, 3, 4.
\<close>

theorem C1_counterexample:
  "listener_output [[1, 2], [3, 4]] [True, True] = Inr (le32 1 @ le32 3 @ le32 2 @ le32 4)
   \<and> serialize_row_major (select_rows [True, True] [[1, 2], [3, 4]]) = le32 1 @ le32 2 @ le32 3 @ le32 4
   \<and> le32 1 @ le32 3 @ le32 2 @ le32 4 \<noteq> le32 1 @ le32 2 @ le32 3 @ le32 4"
  by (simp add: listener_output_def transpose_frame_def ncols_def tobytes_def np_bool_index_def
        select_rows_def serialize_row_major_def le32_def upt_rec Let_def)

lemma bool_index_map:
  "np_bool_index M (map g F) = map g (np_bool_index M F)"
proof (induction M arbitrary: F)
  case Nil then show ?case by (simp add: np_bool_index_def)
next
  case (Cons m M) then show ?case by (cases F) (auto simp: np_bool_index_def)
qed

lemma bool_index_subset: "set (np_bool_index M F) \<subseteq> set F"
  by (auto simp: np_bool_index_def dest: set_zip_rightD)

lemma concat_empties: "concat (map (\<lambda>r. concat (map f [])) xs) = []"
  by (induction xs) simp_all

lemma select_rows_index: "select_rows M F = np_bool_index M F"
  by (simp add: select_rows_def np_bool_index_def)

text \<open>
  C1, amended: for every frame of the hub (rows of one length) and every listener whose
  stored mask has one entry per channel row, the bytes sent to that listener are exactly
  the row-major image, in little-endian \<open>int32\<close> words, of the transpose of
  \<open>frame[M, :]\<close>: samples by channels, all selected channels of sample 0 first.
\<close>

theorem C1_listener_bytes:
  assumes "\<forall>r \<in> set F. length r = S" "length M = length F"
  shows "listener_output F M = Inr (serialize_row_major (transpose_frame (select_rows M F)))"
proof (cases "np_bool_index M F")
  case Nil
  have "map (np_bool_index M) (transpose_frame F) = map (\<lambda>r. []) (transpose_frame F)"
    using Nil by (simp add: transpose_frame_def bool_index_map)
  then show ?thesis using Nil assms(2)
    by (simp add: listener_output_def tobytes_def serialize_row_major_def transpose_frame_def
          ncols_def Let_def select_rows_index)
next
  case (Cons r rs)
  then have "r \<in> set F" using bool_index_subset [of M F] by auto
  then have S: "length r = S" "F \<noteq> []" using assms(1) by auto
  then have "ncols F = S" using assms(1) by (cases F) (auto simp: ncols_def)
  moreover have "ncols (np_bool_index M F) = S" using Cons S by (simp add: ncols_def)
  ultimately have "map (np_bool_index M) (transpose_frame F) = transpose_frame (np_bool_index M F)"
    by (simp add: transpose_frame_def bool_index_map)
  then have "tobytes (map (np_bool_index M) (transpose_frame F))
               = serialize_row_major (transpose_frame (np_bool_index M F))"
    by (simp only: tobytes_def serialize_row_major_def)
  moreover have "M \<noteq> []" using S assms(2) by auto
  ultimately show ?thesis using assms(2)
    by (simp add: listener_output_def Let_def select_rows_index)
qed

theorem C1_listener_bytes_witness:
  "list_all (\<lambda>r. length r = 1) frame4 \<and> length [False, True, False, True] = length frame4
   \<and> listener_output frame4 [False, True, False, True] = Inr (le32 11 @ le32 13)"
  using C1_listener_bytes [of frame4 1 "[False, True, False, True]"]
  by (simp add: frame4_def select_rows_def transpose_frame_def ncols_def
        serialize_row_major_def)

section \<open>The failure of a listener\<close>

lemma hub2_eq:
  "hub2 = \<lparr>broadcast_connected = Some [\<lparr>h_id = 0, h_websocket = 100, h_mask = []\<rparr>,
       \<lparr>h_id = 1, h_websocket = 101, h_mask = [False, True, False, True]\<rparr>,
       \<lparr>h_id = 2, h_websocket = 102, h_mask = [False, True, False, True]\<rparr>],
     mm_stopped = False\<rparr>"
  by (simp add: hub2_def hub0_def service_listen_def listen_mask_def np_isin_def session4_def
        listen13_def Let_def)

text \<open>
  C8 fails on the code. With a runner and two listeners (ids 1 and 2), a frame on which
  both listener sockets are closed and the runner's send succeeds stops the acquisition:
  the removal deletes position 1, then position 2 of a list of two, which raises
  \<open>IndexError\<close>. And when listener 1 is lost on one frame and listener 2 on a later
  one, the second removal deletes position 2 of a list of two again: the acquisition is
  stopped and the lost listener stays in the list.
\<close>

theorem C8_listener_loss_stops_session:
  "net_both_closed 100 = Delivered
   \<and> broadcast_frame False 100 net_both_closed frame4 hub2 =
     (\<lparr>broadcast_connected = Some [\<lparr>h_id = 0, h_websocket = 100, h_mask = []\<rparr>,
         \<lparr>h_id = 2, h_websocket = 102, h_mask = [False, True, False, True]\<rparr>],
       mm_stopped = True\<rparr>, [(100, le32 10 @ le32 11 @ le32 12 @ le32 13)], Some IndexError)
   \<and> fst (broadcast_frame False 100 (net_closed 101) frame4 hub2) =
     \<lparr>broadcast_connected = Some [\<lparr>h_id = 0, h_websocket = 100, h_mask = []\<rparr>,
         \<lparr>h_id = 2, h_websocket = 102, h_mask = [False, True, False, True]\<rparr>],
       mm_stopped = False\<rparr>
   \<and> net_closed 102 100 = Delivered
   \<and> fst (broadcast_frame False 100 (net_closed 102) frame4
          (fst (broadcast_frame False 100 (net_closed 101) frame4 hub2))) =
     \<lparr>broadcast_connected = Some [\<lparr>h_id = 0, h_websocket = 100, h_mask = []\<rparr>,
         \<lparr>h_id = 2, h_websocket = 102, h_mask = [False, True, False, True]\<rparr>],
       mm_stopped = True\<rparr>"
  by (simp add: hub2_eq broadcast_frame_def net_both_closed_def net_closed_def frame4_def
        listener_output_def runner_output_def transpose_frame_def ncols_def tobytes_def
        np_bool_index_def upt_rec Let_def)

section \<open>The \<open>status\<close> attribute\<close>

lemma ns_status: "class_namespace MegaMicro_body ''status'' = Some (Property status_dict)"
  by (simp add: class_namespace_def MegaMicro_body_def)

lemma ns_counter:
  "class_namespace MegaMicro_body ''counter'' = Some (Property (\<lambda>self. self ''_counter''))"
  by (simp add: class_namespace_def MegaMicro_body_def)

text \<open>
  C10: reading \<open>status\<close> on any instance returns the dictionary of the session status,
  of 33 entries, and never a boolean: the later \<open>def status\<close> rebinds the name. The flag
  of the status channel is the entry \<open>status\<close> of that dictionary; a flag whose
  property is not shadowed, such as \<open>counter\<close>, is read directly.
\<close>

theorem C10_status_is_dictionary:
  "getattr self ''status'' = status_dict self
   \<and> (\<exists>kv. getattr self ''status'' = PyDict kv \<and> length kv = 33
          \<and> map_of kv ''status'' = Some (self ''_status'')
          \<and> map_of kv ''clockdiv'' = Some (self ''_clockdiv''))
   \<and> getattr self ''status'' \<noteq> PyBool b
   \<and> getattr self ''counter'' = self ''_counter''"
  by (simp add: getattr_def ns_status ns_counter status_dict_def)

end
